theory Spec2Isabelle
  imports Main
begin

section \<open>Errors\<close>

text \<open>
  The Go code reports failures as values of the interface type \<open>error\<close>. The model keeps
  one constructor per origin: \<open>errors.New\<close> in \<open>api.go\<close> itself, \<open>*time.ParseError\<close>
  from \<open>time.Parse\<close>, \<open>*url.Error\<close> from \<open>url.Parse\<close>, the error of
  \<open>http.Client.Do\<close> and the error of \<open>json.Decoder.Decode\<close>. The payload names the reason;
  it is not the exact message text of the library.
\<close>

datatype error =
    ErrorString string
  | ParseError string
  | UrlError string
  | TransportError string
  | JsonError string

section \<open>Bytes of a Go string\<close>

text \<open>
  A Go \<open>string\<close> is a sequence of bytes; \<open>char\<close> is a byte, \<open>of_char\<close> reads its value.
  The double quote is byte \<open>0x22\<close>.
\<close>

definition dquote :: char where
  "dquote = CHR 0x22"

definition byte :: "char \<Rightarrow> nat" where
  "byte c = of_char c"

text \<open>\<open>strings.ReplaceAll(s, old, "")\<close> for a one-byte \<open>old\<close>: every occurrence is deleted.\<close>

definition ReplaceAll_byte :: "string \<Rightarrow> char \<Rightarrow> string" where
  "ReplaceAll_byte s old = filter (\<lambda>c. c \<noteq> old) s"

section \<open>The part of package \<open>time\<close> that \<open>Timestamp.UnmarshalJSON\<close> runs\<close>

text \<open>
  \<open>time.Parse(layout, value)\<close> cuts the layout \<open>"20060102150405"\<close> into the chunks
  \<open>2006\<close>, \<open>01\<close>, \<open>02\<close>, \<open>15\<close>, \<open>04\<close>, \<open>05\<close> (\<open>nextStdChunk\<close>), none of which has a
  literal prefix, and consumes the value chunk by chunk. The functions below follow
  \<open>isDigit\<close>, \<open>getnum\<close>, \<open>leadingInt\<close>, \<open>atoi\<close>, \<open>parseNanoseconds\<close>, \<open>isLeap\<close>, \<open>daysIn\<close>
  and the body of \<open>parse\<close> of the standard library for these six chunks; the location
  is \<open>UTC\<close>, the default of \<open>time.Parse\<close> for a layout without zone.
\<close>

datatype std = stdLongYear | stdZeroMonth | stdZeroDay | stdHour | stdZeroMinute | stdZeroSecond

definition layout :: "std list" where
  "layout = [stdLongYear, stdZeroMonth, stdZeroDay, stdHour, stdZeroMinute, stdZeroSecond]"

definition is_digit_byte :: "char \<Rightarrow> bool" where
  "is_digit_byte c = (48 \<le> byte c \<and> byte c \<le> 57)"

definition digit_val :: "char \<Rightarrow> nat" where
  "digit_val c = byte c - 48"

definition isDigit :: "string \<Rightarrow> nat \<Rightarrow> bool" where
  "isDigit s i = (if length s \<le> i then False else is_digit_byte (s ! i))"

definition commaOrPeriod :: "char \<Rightarrow> bool" where
  "commaOrPeriod b = (b = CHR ''.'' \<or> b = CHR '','')"

text \<open>\<open>getnum(s, fixed)\<close>: one or two leading digits; two are required when \<open>fixed\<close>.\<close>

definition getnum :: "string \<Rightarrow> bool \<Rightarrow> error + (int \<times> string)" where
  "getnum s fixed =
     (if \<not> isDigit s 0 then Inl (ParseError [])
      else if \<not> isDigit s 1 then
        (if fixed then Inl (ParseError [])
         else Inr (int (digit_val (s ! 0)), drop 1 s))
      else Inr (int (digit_val (s ! 0)) * 10 + int (digit_val (s ! 1)), drop 2 s))"

text \<open>
  \<open>leadingInt\<close> reads the leading decimal digits into a \<open>uint64\<close> and fails once the value
  passes \<open>1 << 63\<close>; the accumulator is the second argument.
\<close>

fun leadingInt :: "string \<Rightarrow> nat \<Rightarrow> (nat \<times> string) option" where
  "leadingInt [] x = Some (x, [])"
| "leadingInt (c # s) x =
     (if \<not> is_digit_byte c then Some (x, c # s)
      else if x > 2 ^ 63 div 10 then None
      else let x' = x * 10 + digit_val c in
        if x' > 2 ^ 63 then None else leadingInt s x')"

text \<open>
  \<open>atoi\<close>: an optional sign, then digits only. \<open>int(q)\<close> wraps \<open>1 << 63\<close> to the minimum,
  and negating the minimum gives the minimum again.
\<close>

definition atoi :: "string \<Rightarrow> int option" where
  "atoi s0 =
     (let neg = (s0 \<noteq> [] \<and> hd s0 = CHR ''-'');
          s = (if s0 \<noteq> [] \<and> (hd s0 = CHR ''-'' \<or> hd s0 = CHR ''+'') then tl s0 else s0)
      in case leadingInt s 0 of
           None \<Rightarrow> None
         | Some (q, rem) \<Rightarrow>
             if rem \<noteq> [] then None
             else let x = (if q = 2 ^ 63 then - (2 ^ 63) else int q)
                  in Some (if neg \<and> q \<noteq> 2 ^ 63 then - x else x))"

text \<open>
  \<open>parseNanoseconds(value, nbytes)\<close>: \<open>value\<close> starts with the separator, a period or
  (since Go 1.17) a comma; at most nine digits count, and the number is scaled to
  nanoseconds.
\<close>

definition parseNanoseconds :: "string \<Rightarrow> nat \<Rightarrow> error + int" where
  "parseNanoseconds value0 nbytes0 =
     (if value0 = [] \<or> \<not> commaOrPeriod (value0 ! 0) then Inl (ParseError [])
      else let value = (if nbytes0 > 10 then take 10 value0 else value0);
               nbytes = (if nbytes0 > 10 then 10 else nbytes0)
           in case atoi (take (nbytes - 1) (drop 1 value)) of
                None \<Rightarrow> Inl (ParseError [])
              | Some ns \<Rightarrow>
                  if ns < 0 then Inl (ParseError '': fractional second out of range'')
                  else Inr (ns * 10 ^ (10 - nbytes)))"

definition isLeap :: "int \<Rightarrow> bool" where
  "isLeap year = (year mod 4 = 0 \<and> (year mod 100 \<noteq> 0 \<or> year mod 400 = 0))"

definition daysIn :: "int \<Rightarrow> int \<Rightarrow> int" where
  "daysIn m year =
     (if m = 2 \<and> isLeap year then 29
      else if m = 2 then 28
      else if m = 4 \<or> m = 6 \<or> m = 9 \<or> m = 11 then 30
      else 31)"

text \<open>
  A \<open>time.Time\<close> in \<open>UTC\<close>, by what its accessors \<open>Year()\<close>, \<open>Month()\<close>, \<open>Day()\<close>,
  \<open>Hour()\<close>, \<open>Minute()\<close>, \<open>Second()\<close> and \<open>Nanosecond()\<close> return. \<open>time.Date\<close> is applied by
  \<open>parse\<close> to fields it has checked to be in range, where it does not normalise.
\<close>

record Time =
  Year :: int
  Month :: int
  Day :: int
  Hour :: int
  Minute :: int
  Second :: int
  Nanosecond :: int

definition Date :: "int \<Rightarrow> int \<Rightarrow> int \<Rightarrow> int \<Rightarrow> int \<Rightarrow> int \<Rightarrow> int \<Rightarrow> Time" where
  "Date y mo d h mi s ns =
     \<lparr>Year = y, Month = mo, Day = d, Hour = h, Minute = mi, Second = s, Nanosecond = ns\<rparr>"

text \<open>The zero \<open>time.Time\<close>: January 1, year 1, 00:00:00 UTC.\<close>

definition zero_Time :: Time where
  "zero_Time = Date 1 1 1 0 0 0 0"

text \<open>
  The loop \<open>for ; n < len(value) && isDigit(value, n); n++ {}\<close>: the index where the
  digits that begin at \<open>n\<close> end.
\<close>

definition count_digits_from :: "string \<Rightarrow> nat \<Rightarrow> nat" where
  "count_digits_from value n = n + length (takeWhile is_digit_byte (drop n value))"

text \<open>
  One turn of the loop of \<open>parse\<close>: the chunk \<open>c\<close> is read from the front of \<open>value\<close> into
  the fields parsed so far. A range error or a syntax error ends the parse. After the
  seconds a fractional second is read although the layout has none: the layout that is
  left holds no fractional-second chunk.
\<close>

definition parse_chunk :: "std \<Rightarrow> Time \<times> string \<Rightarrow> error + (Time \<times> string)" where
  "parse_chunk c st =
     (let t = fst st; value = snd st in
      case c of
        stdLongYear \<Rightarrow>
          (if length value < 4 \<or> \<not> isDigit value 0 then Inl (ParseError [])
           else case atoi (take 4 value) of
                  None \<Rightarrow> Inl (ParseError [])
                | Some y \<Rightarrow> Inr (t\<lparr>Year := y\<rparr>, drop 4 value))
      | stdZeroMonth \<Rightarrow>
          (case getnum value True of
             Inl e \<Rightarrow> Inl e
           | Inr (m, rest) \<Rightarrow>
               if m \<le> 0 \<or> 12 < m then Inl (ParseError '': month out of range'')
               else Inr (t\<lparr>Month := m\<rparr>, rest))
      | stdZeroDay \<Rightarrow>
          (case getnum value True of
             Inl e \<Rightarrow> Inl e
           | Inr (d, rest) \<Rightarrow> Inr (t\<lparr>Day := d\<rparr>, rest))
      | stdHour \<Rightarrow>
          (case getnum value False of
             Inl e \<Rightarrow> Inl e
           | Inr (h, rest) \<Rightarrow>
               if h < 0 \<or> 24 \<le> h then Inl (ParseError '': hour out of range'')
               else Inr (t\<lparr>Hour := h\<rparr>, rest))
      | stdZeroMinute \<Rightarrow>
          (case getnum value True of
             Inl e \<Rightarrow> Inl e
           | Inr (mi, rest) \<Rightarrow>
               if mi < 0 \<or> 60 \<le> mi then Inl (ParseError '': minute out of range'')
               else Inr (t\<lparr>Minute := mi\<rparr>, rest))
      | stdZeroSecond \<Rightarrow>
          (case getnum value True of
             Inl e \<Rightarrow> Inl e
           | Inr (s, rest) \<Rightarrow>
               if s < 0 \<or> 60 \<le> s then Inl (ParseError '': second out of range'')
               else if length rest \<ge> 2 \<and> commaOrPeriod (rest ! 0) \<and> isDigit rest 1 then
                 (let n = count_digits_from rest 2 in
                  case parseNanoseconds rest n of
                    Inl e \<Rightarrow> Inl e
                  | Inr ns \<Rightarrow> Inr (t\<lparr>Second := s, Nanosecond := ns\<rparr>, drop n rest))
               else Inr (t\<lparr>Second := s\<rparr>, rest)))"

fun parse_chunks :: "std list \<Rightarrow> Time \<times> string \<Rightarrow> error + (Time \<times> string)" where
  "parse_chunks [] st = Inr st"
| "parse_chunks (c # cs) st =
     (case parse_chunk c st of Inl e \<Rightarrow> Inl e | Inr st' \<Rightarrow> parse_chunks cs st')"

text \<open>
  \<open>time.Parse\<close>: the loop, then the check for text after the last chunk, then the check
  of the day against the month. The fields start as \<open>parse\<close> declares them (year, hour,
  minute, second and nanosecond 0; month and day unset, written \<open>-1\<close>).
\<close>

definition time_Parse :: "std list \<Rightarrow> string \<Rightarrow> error + Time" where
  "time_Parse lay value =
     (case parse_chunks lay (Date 0 (-1) (-1) 0 0 0 0, value) of
        Inl e \<Rightarrow> Inl e
      | Inr (t, rest) \<Rightarrow>
          if rest \<noteq> [] then Inl (ParseError ('': extra text: '' @ rest))
          else if Day t < 1 \<or> Day t > daysIn (Month t) (Year t)
            then Inl (ParseError '': day out of range'')
          else Inr (Date (Year t) (Month t) (Day t) (Hour t) (Minute t) (Second t) (Nanosecond t)))"

text \<open>
  \<open>appendInt(b, x, width)\<close> and \<open>Time.Format\<close> for the same layout (the fixed-width
  form the specification re-serialises to).
\<close>

function decimal :: "nat \<Rightarrow> string" where
  "decimal n = (if n < 10 then [char_of (48 + n)] else decimal (n div 10) @ [char_of (48 + n mod 10)])"
  by pat_completeness auto
termination
  by (relation "measure id") auto

declare decimal.simps [simp del]

definition appendInt :: "string \<Rightarrow> int \<Rightarrow> nat \<Rightarrow> string" where
  "appendInt b x width =
     (let u = nat \<bar>x\<bar>; ds = decimal u
      in b @ (if x < 0 then ''-'' else []) @ replicate (width - length ds) (CHR ''0'') @ ds)"

definition format_chunk :: "Time \<Rightarrow> string \<Rightarrow> std \<Rightarrow> string" where
  "format_chunk t b c =
     (case c of
        stdLongYear \<Rightarrow> appendInt b (Year t) 4
      | stdZeroMonth \<Rightarrow> appendInt b (Month t) 2
      | stdZeroDay \<Rightarrow> appendInt b (Day t) 2
      | stdHour \<Rightarrow> appendInt b (Hour t) 2
      | stdZeroMinute \<Rightarrow> appendInt b (Minute t) 2
      | stdZeroSecond \<Rightarrow> appendInt b (Second t) 2)"

definition Format :: "Time \<Rightarrow> std list \<Rightarrow> string" where
  "Format t lay = foldl (format_chunk t) [] lay"

section \<open>Timestamp\<close>

text \<open>\<open>type Timestamp struct { time.Time }\<close>\<close>

record Timestamp =
  Time :: Time

text \<open>
  \<open>func (p *Timestamp) UnmarshalJSON(bytes []byte) error\<close>: the receiver is passed in and
  returned; on a parse error it is returned as it was.
\<close>

definition UnmarshalJSON :: "Timestamp \<Rightarrow> string \<Rightarrow> Timestamp \<times> error option" where
  "UnmarshalJSON p bytes =
     (case time_Parse layout (ReplaceAll_byte bytes dquote) of
        Inl err \<Rightarrow> (p, Some err)
      | Inr t \<Rightarrow> (p\<lparr>Time := t\<rparr>, None))"

section \<open>The timestamp format in the words of the specification\<close>

text \<open>
  The specification describes the wire format as fourteen decimal digits \<open>YYYYMMDDHHMMSS\<close>
  that name a valid calendar date and time of day. These definitions state that
  independently of the parser, to be compared with it below.
\<close>

definition digits_val :: "string \<Rightarrow> nat" where
  "digits_val ds = foldl (\<lambda>a c. 10 * a + digit_val c) 0 ds"

text \<open>The number written by the \<open>n\<close> digits of \<open>s\<close> that start at offset \<open>i\<close>.\<close>

definition stamp_field :: "string \<Rightarrow> nat \<Rightarrow> nat \<Rightarrow> int" where
  "stamp_field s i n = int (digits_val (take n (drop i s)))"

definition gregorian_leap :: "int \<Rightarrow> bool" where
  "gregorian_leap y = (4 dvd y \<and> (\<not> 100 dvd y \<or> 400 dvd y))"

definition days_of_month :: "int \<Rightarrow> int \<Rightarrow> int" where
  "days_of_month y m =
     (if m = 2 then (if gregorian_leap y then 29 else 28)
      else if m \<in> {4, 6, 9, 11} then 30 else 31)"

definition stamp_time :: "string \<Rightarrow> Time" where
  "stamp_time s =
     \<lparr>Year = stamp_field s 0 4, Month = stamp_field s 4 2, Day = stamp_field s 6 2,
      Hour = stamp_field s 8 2, Minute = stamp_field s 10 2, Second = stamp_field s 12 2,
      Nanosecond = 0\<rparr>"

definition is_YYYYMMDDHHMMSS :: "string \<Rightarrow> bool" where
  "is_YYYYMMDDHHMMSS s =
     (length s = 14 \<and> list_all is_digit_byte s \<and>
      1 \<le> stamp_field s 4 2 \<and> stamp_field s 4 2 \<le> 12 \<and>
      1 \<le> stamp_field s 6 2 \<and>
      stamp_field s 6 2 \<le> days_of_month (stamp_field s 0 4) (stamp_field s 4 2) \<and>
      stamp_field s 8 2 < 24 \<and> stamp_field s 10 2 < 60 \<and> stamp_field s 12 2 < 60)"

text \<open>A fractional-second suffix: a period or a comma, then one or more digits.\<close>

definition is_fraction :: "string \<Rightarrow> bool" where
  "is_fraction f =
     (case f of [] \<Rightarrow> False
      | sep # ds \<Rightarrow> (sep = CHR ''.'' \<or> sep = CHR '','') \<and> ds \<noteq> [] \<and> list_all is_digit_byte ds)"

text \<open>A valid fourteen-digit stamp, alone or followed by a fractional-second suffix.\<close>

definition accepted_stamp :: "string \<Rightarrow> bool" where
  "accepted_stamp s =
     (is_YYYYMMDDHHMMSS (take 14 s) \<and> (drop 14 s = [] \<or> is_fraction (drop 14 s)))"

text \<open>The \<open>w\<close> low decimal digits of \<open>n\<close>, most significant first (used in the proofs).\<close>

fun fixed_digits :: "nat \<Rightarrow> nat \<Rightarrow> string" where
  "fixed_digits 0 n = []"
| "fixed_digits (Suc w) n = fixed_digits w (n div 10) @ [char_of (48 + n mod 10)]"

section \<open>The data model of \<open>api.go\<close>\<close>

text \<open>
  The structs that the JSON responses are decoded into. A Go pointer field is an
  \<open>option\<close> (\<open>None\<close> is \<open>nil\<close>), \<open>map[int]*Namespace\<close> a map.
\<close>

record ServerInfo =
  ApiVersion :: string

record Namespace =
  Case :: bool
  Title :: string

record SiteInfo =
  SiteName :: string
  DbName :: string
  Base :: string
  Generator :: string
  Case :: string
  Namespaces :: "int \<rightharpoonup> Namespace option"

record RevisionInfo =
  GenesisHash :: string
  CurrentRevision :: string
  DomainId :: string
  Content :: string
  LatestVerificationHash :: string
  SiteInfo :: "SiteInfo option"
  Title :: string
  Namespace :: int
  ChainHeight :: int

record VerificationContext =
  HasPreviousSignature :: bool
  HasPreviousWitness :: bool

record ContentData =
  Main :: string
  TransclusionHashes :: string

record RevisionContent =
  RevId :: int
  Content :: "ContentData option"
  ContentHash :: string

record RevisionMetadata =
  DomainId :: string
  Timestamp :: Timestamp
  PreviousVerificationHash :: string
  MetadataHash :: string
  VerificationHash :: string

type_synonym RevisionHash = string

record RevisionSignature =
  Signature :: string
  WalletAddress :: string
  SignatureHash :: string

record RevisionWitness =
  DomainManifestGenesisHash :: string
  MerkleRoot :: string
  WitnessNetwork :: string
  Transaction :: string
  WitnessHash :: string

datatype RevisionMerkleTreeProof = RevisionMerkleTreeProof

record Revision =
  Context :: "VerificationContext option"
  Content :: "RevisionContent option"
  Metadata :: "RevisionMetadata option"
  Signature :: "RevisionSignature option"
  Witness :: "RevisionWitness option"
  MerkleTreeProof :: "RevisionMerkleTreeProof option"

section \<open>What the client uses of \<open>net/url\<close>, \<open>net/http\<close> and \<open>encoding/json\<close>\<close>

text \<open>\<open>url.URL\<close> and \<open>url.Userinfo\<close>, field by field.\<close>

record Userinfo =
  username :: string
  password :: string
  passwordSet :: bool

record URL =
  Scheme :: string
  Opaque :: string
  User :: "Userinfo option"
  Host :: string
  Path :: string
  RawPath :: string
  OmitHost :: bool
  ForceQuery :: bool
  RawQuery :: string
  Fragment :: string
  RawFragment :: string

text \<open>
  \<open>http.Header\<close> is \<open>map[string][]string\<close>; the association list keeps the order in
  which keys were added. \<open>Add\<close> appends the value to the values of the key, \<open>Get\<close>
  returns the first value or the empty string. The two keys the client adds,
  \<open>Content-Type\<close> and \<open>Authorization\<close>, are already in canonical form.
\<close>

type_synonym Header = "(string \<times> string list) list"

definition Header_Add :: "Header \<Rightarrow> string \<Rightarrow> string \<Rightarrow> Header" where
  "Header_Add h key v =
     (case map_of h key of
        None \<Rightarrow> h @ [(key, [v])]
      | Some _ \<Rightarrow> map (\<lambda>kv. if fst kv = key then (fst kv, snd kv @ [v]) else kv) h)"

definition Header_Get :: "Header \<Rightarrow> string \<Rightarrow> string" where
  "Header_Get h key = (case map_of h key of Some (v # _) \<Rightarrow> v | _ \<Rightarrow> [])"

record Request =
  Method :: string
  URL :: URL
  Header :: Header

text \<open>An \<open>http.Response\<close>: the status code and the bytes that \<open>Body\<close> delivers.\<close>

record Response =
  StatusCode :: int
  Body :: string

text \<open>A JSON value as \<open>encoding/json\<close> reads it from a stream.\<close>

datatype json =
    JNull
  | JBool bool
  | JNumber string
  | JString string
  | JArray "json list"
  | JObject "(string \<times> json) list"

text \<open>
  The library functions and the server are parameters of the client model:
  \<^item> \<open>url_Parse\<close> is \<open>url.Parse\<close>, \<open>url_String\<close> is \<open>(*URL).String\<close>;
  \<^item> \<open>client_Do\<close> is \<open>http.Client.Do\<close> on the zero \<open>http.Client\<close> of the struct: the
    network and the server behind it; a response that comes with an error is
    dropped by \<open>fetch\<close> and is left out;
  \<^item> \<open>json_Decode\<close> is \<open>json.NewDecoder(body).Decode\<close> up to the JSON value read;
  \<^item> \<open>unmarshal_RevisionInfo\<close>, \<open>unmarshal_Revision\<close> and \<open>unmarshal_ServerInfo\<close> store
    a JSON value read into a fresh struct of that type.
\<close>

record env =
  url_Parse :: "string \<Rightarrow> error + URL"
  url_String :: "URL \<Rightarrow> string"
  client_Do :: "Request \<Rightarrow> error + Response"
  json_Decode :: "string \<Rightarrow> error + json"
  unmarshal_RevisionInfo :: "json \<Rightarrow> error + RevisionInfo"
  unmarshal_Revision :: "json \<Rightarrow> error + Revision"
  unmarshal_ServerInfo :: "json \<Rightarrow> error + ServerInfo"

text \<open>
  Storing a JSON value into \<open>[]*RevisionHash\<close>: \<open>null\<close> makes the slice \<open>nil\<close>, an array
  makes a fresh slice with one pointer per element (\<open>nil\<close> for \<open>null\<close>, the string
  otherwise); anything else is an \<open>UnmarshalTypeError\<close>.
\<close>

definition unmarshal_RevisionHash :: "json \<Rightarrow> (RevisionHash option) option" where
  "unmarshal_RevisionHash j =
     (case j of JNull \<Rightarrow> Some None | JString s \<Rightarrow> Some (Some s) | _ \<Rightarrow> None)"

definition unmarshal_RevisionHashes :: "json \<Rightarrow> error + (RevisionHash option list) option" where
  "unmarshal_RevisionHashes j =
     (case j of
        JNull \<Rightarrow> Inr None
      | JArray xs \<Rightarrow>
          if list_all (\<lambda>x. unmarshal_RevisionHash x \<noteq> None) xs
          then Inr (Some (map (\<lambda>x. the (unmarshal_RevisionHash x)) xs))
          else Inl (JsonError ''json: cannot unmarshal into Go value of type api.RevisionHash'')
      | _ \<Rightarrow> Inl (JsonError ''json: cannot unmarshal into Go value of type []*api.RevisionHash''))"

text \<open>
  \<open>http.NewRequest(method, url, nil)\<close> for a valid method: the URL is parsed again, an
  empty port is removed from the host, and the header starts empty.
\<close>

definition LastIndex_byte :: "string \<Rightarrow> char \<Rightarrow> int" where
  "LastIndex_byte s c =
     (if c \<in> set s then int (length s) - 1 - int (length (takeWhile (\<lambda>x. x \<noteq> c) (rev s))) else - 1)"

definition removeEmptyPort :: "string \<Rightarrow> string" where
  "removeEmptyPort host =
     (if LastIndex_byte host (CHR '':'') > LastIndex_byte host (CHR '']'')
         \<and> host \<noteq> [] \<and> last host = CHR '':''
      then butlast host else host)"

definition http_NewRequest :: "env \<Rightarrow> string \<Rightarrow> string \<Rightarrow> error + Request" where
  "http_NewRequest env method url =
     (case url_Parse env url of
        Inl err \<Rightarrow> Inl err
      | Inr u \<Rightarrow> Inr \<lparr>Method = method, URL = u\<lparr>Host := removeEmptyPort (Host u)\<rparr>, Header = []\<rparr>)"

section \<open>The client\<close>

definition endpoint_get_hash_chain_info :: string where
  "endpoint_get_hash_chain_info = ''/data_accounting/get_hash_chain_info/''"

definition endpoint_get_revision_hashes :: string where
  "endpoint_get_revision_hashes = ''/data_accounting/get_revision_hashes/''"

definition endpoint_get_revision :: string where
  "endpoint_get_revision = ''/data_accounting/get_revision/''"

definition endpoint_get_server_info :: string where
  "endpoint_get_server_info = ''/data_accounting/get_server_info''"

text \<open>
  \<open>AquaProtocol\<close>: the field \<open>apiClient\<close> is the zero \<open>http.Client\<close>, whose behaviour is
  \<open>client_Do\<close> of the environment.
\<close>

record AquaProtocol =
  apiEndpoint :: string
  authToken :: string
  server :: string

text \<open>
  What a call does: it panics, or it returns Go's pair of a pointer (or slice) and an
  error, \<open>None\<close> standing for \<open>nil\<close>. Next to it every function that can reach the
  network returns the requests it handed to the HTTP client, in order.
\<close>

datatype 'a outcome = Panic string | Return "'a option" "error option"

text \<open>\<open>func (a *AquaProtocol) GetApiURL(path string) (*url.URL, error)\<close>\<close>

definition GetApiURL :: "env \<Rightarrow> AquaProtocol \<Rightarrow> string \<Rightarrow> error + URL" where
  "GetApiURL env a path =
     (case url_Parse env (apiEndpoint a @ path) of
        Inl err \<Rightarrow> Inl err
      | Inr u \<Rightarrow> Inr u)"

text \<open>
  \<open>func (a *AquaProtocol) fetch(u *url.URL) (*http.Response, error)\<close>. On a status other
  than 200 both the response and an error are returned.
\<close>

definition fetch :: "env \<Rightarrow> AquaProtocol \<Rightarrow> URL \<Rightarrow> (Response option \<times> error option) \<times> Request list" where
  "fetch env a u =
     (case http_NewRequest env ''GET'' (url_String env u) of
        Inl err \<Rightarrow> ((None, Some err), [])
      | Inr req0 \<Rightarrow>
          let req1 = req0\<lparr>Header := Header_Add (Header req0) ''Content-Type'' ''application/json''\<rparr>;
              req = req1\<lparr>Header := Header_Add (Header req1) ''Authorization'' (''Bearer'' @ authToken a)\<rparr>
          in case client_Do env req of
               Inl err \<Rightarrow> ((None, Some err), [req])
             | Inr resp \<Rightarrow>
                 if StatusCode resp \<noteq> 200
                 then ((Some resp, Some (ErrorString ''Request Not 200 OK'')), [req])
                 else ((Some resp, None), [req]))"

text \<open>
  \<open>d := json.NewDecoder(resp.Body); err = d.Decode(r)\<close> for a target with the storing
  function \<open>store\<close>.
\<close>

definition Decode :: "env \<Rightarrow> (json \<Rightarrow> error + 'a) \<Rightarrow> string \<Rightarrow> error + 'a" where
  "Decode env store body =
     (case json_Decode env body of
        Inl err \<Rightarrow> Inl err
      | Inr j \<Rightarrow> store j)"

text \<open>
  \<open>func (a *AquaProtocol) GetHashChainInfo(id_type, id string) (*RevisionInfo, error)\<close>.
  The \<open>return\<close> behind the \<open>panic\<close> is never reached. Reading \<open>resp.Body\<close> of a \<open>nil\<close>
  response would be a nil dereference. The \<open>log.Println\<close> of a decoding error only
  writes to the log and is left out.
\<close>

definition GetHashChainInfo ::
    "env \<Rightarrow> AquaProtocol \<Rightarrow> string \<Rightarrow> string \<Rightarrow> RevisionInfo outcome \<times> Request list" where
  "GetHashChainInfo env a id_type id' =
     (if id_type \<noteq> ''genesis_hash'' \<and> id_type \<noteq> ''title'' then (Panic ''wtf'', [])
      else case GetApiURL env a (endpoint_get_hash_chain_info @ id_type @ ''/'' @ id') of
        Inl err \<Rightarrow> (Return None (Some err), [])
      | Inr u \<Rightarrow>
          (case fetch env a u of
             ((_, Some err), sent) \<Rightarrow> (Return None (Some err), sent)
           | ((None, None), sent) \<Rightarrow> (Panic ''nil pointer dereference'', sent)
           | ((Some resp, None), sent) \<Rightarrow>
               (case Decode env (unmarshal_RevisionInfo env) (Body resp) of
                  Inl err \<Rightarrow> (Return None (Some err), sent)
                | Inr r \<Rightarrow> (Return (Some r) None, sent))))"

text \<open>
  \<open>func (a *AquaProtocol) GetRevisionHashes(verification_hash string) ([]*RevisionHash, error)\<close>
\<close>

definition GetRevisionHashes ::
    "env \<Rightarrow> AquaProtocol \<Rightarrow> string \<Rightarrow> (RevisionHash option list) outcome \<times> Request list" where
  "GetRevisionHashes env a verification_hash =
     (case GetApiURL env a (endpoint_get_revision_hashes @ verification_hash) of
        Inl err \<Rightarrow> (Return None (Some err), [])
      | Inr u \<Rightarrow>
          (case fetch env a u of
             ((_, Some err), sent) \<Rightarrow> (Return None (Some err), sent)
           | ((None, None), sent) \<Rightarrow> (Panic ''nil pointer dereference'', sent)
           | ((Some resp, None), sent) \<Rightarrow>
               (case Decode env unmarshal_RevisionHashes (Body resp) of
                  Inl err \<Rightarrow> (Return None (Some err), sent)
                | Inr r \<Rightarrow> (Return r None, sent))))"

text \<open>\<open>func (a *AquaProtocol) GetRevision(verification_hash string) (*Revision, error)\<close>\<close>

definition GetRevision ::
    "env \<Rightarrow> AquaProtocol \<Rightarrow> string \<Rightarrow> Revision outcome \<times> Request list" where
  "GetRevision env a verification_hash =
     (case GetApiURL env a (endpoint_get_revision @ verification_hash) of
        Inl err \<Rightarrow> (Return None (Some err), [])
      | Inr u \<Rightarrow>
          (case fetch env a u of
             ((_, Some err), sent) \<Rightarrow> (Return None (Some err), sent)
           | ((None, None), sent) \<Rightarrow> (Panic ''nil pointer dereference'', sent)
           | ((Some resp, None), sent) \<Rightarrow>
               (case Decode env (unmarshal_Revision env) (Body resp) of
                  Inl err \<Rightarrow> (Return None (Some err), sent)
                | Inr r \<Rightarrow> (Return (Some r) None, sent))))"

text \<open>\<open>func (a *AquaProtocol) GetServerInfo() (*ServerInfo, error)\<close>\<close>

definition GetServerInfo :: "env \<Rightarrow> AquaProtocol \<Rightarrow> ServerInfo outcome \<times> Request list" where
  "GetServerInfo env a =
     (case GetApiURL env a endpoint_get_server_info of
        Inl err \<Rightarrow> (Return None (Some err), [])
      | Inr u \<Rightarrow>
          (case fetch env a u of
             ((_, Some err), sent) \<Rightarrow> (Return None (Some err), sent)
           | ((None, None), sent) \<Rightarrow> (Panic ''nil pointer dereference'', sent)
           | ((Some resp, None), sent) \<Rightarrow>
               (case Decode env (unmarshal_ServerInfo env) (Body resp) of
                  Inl err \<Rightarrow> (Return None (Some err), sent)
                | Inr s \<Rightarrow> (Return (Some s) None, sent))))"

text \<open>\<open>func NewAPI(endpoint, token string) (*AquaProtocol, error)\<close>\<close>

definition NewAPI :: "env \<Rightarrow> string \<Rightarrow> string \<Rightarrow> AquaProtocol option \<times> error option" where
  "NewAPI env endpoint token =
     (case url_Parse env endpoint of
        Inl e \<Rightarrow> (None, Some e)
      | Inr _ \<Rightarrow> (Some \<lparr>apiEndpoint = endpoint, authToken = token, server = []\<rparr>, None))"

section \<open>\<open>url.Parse\<close> and \<open>(*URL).String\<close> of the standard library\<close>

text \<open>
  The theorems about the client hold for every environment. The examples run the
  client in one environment, whose \<open>url.Parse\<close> and \<open>(*URL).String\<close> follow package
  \<open>net/url\<close>: \<open>getScheme\<close>, \<open>parse\<close>, \<open>parseAuthority\<close>, \<open>parseHost\<close>, \<open>validOptionalPort\<close>,
  \<open>validUserinfo\<close>, \<open>shouldEscape\<close>, \<open>unescape\<close>, \<open>escape\<close>, \<open>setPath\<close>, \<open>setFragment\<close>,
  \<open>validEncoded\<close>, \<open>EscapedPath\<close>, \<open>EscapedFragment\<close> and \<open>String\<close>. The check that the
  text between the brackets of a host is an IPv6 address, which newer releases make,
  is not part of \<open>parseHost\<close> here.
\<close>

datatype encoding =
    encodePath | encodePathSegment | encodeHost | encodeZone
  | encodeUserPassword | encodeQueryComponent | encodeFragment

definition stringContainsCTLByte :: "string \<Rightarrow> bool" where
  "stringContainsCTLByte s = list_ex (\<lambda>b. byte b < 32 \<or> byte b = 127) s"

definition is_lower_byte :: "char \<Rightarrow> bool" where
  "is_lower_byte c = (97 \<le> byte c \<and> byte c \<le> 122)"

definition is_upper_byte :: "char \<Rightarrow> bool" where
  "is_upper_byte c = (65 \<le> byte c \<and> byte c \<le> 90)"

definition ishex :: "char \<Rightarrow> bool" where
  "ishex c = (is_digit_byte c \<or> (97 \<le> byte c \<and> byte c \<le> 102) \<or> (65 \<le> byte c \<and> byte c \<le> 70))"

definition unhex :: "char \<Rightarrow> nat" where
  "unhex c =
     (if is_digit_byte c then byte c - 48
      else if 97 \<le> byte c \<and> byte c \<le> 102 then byte c - 97 + 10
      else if 65 \<le> byte c \<and> byte c \<le> 70 then byte c - 65 + 10
      else 0)"

definition upperhex :: "nat \<Rightarrow> char" where
  "upperhex n = ''0123456789ABCDEF'' ! n"

definition shouldEscape :: "char \<Rightarrow> encoding \<Rightarrow> bool" where
  "shouldEscape c mode =
     (if is_lower_byte c \<or> is_upper_byte c \<or> is_digit_byte c then False
      else if (mode = encodeHost \<or> mode = encodeZone) \<and>
              (c \<in> set ''!$&()*+,;=:[]<>'' \<or> c = CHR 0x27 \<or> c = CHR 0x22) then False
      else if c \<in> set ''-_.~'' then False
      else if c \<in> set ''$&+,/:;=?@'' \<and> mode = encodePath then c = CHR ''?''
      else if c \<in> set ''$&+,/:;=?@'' \<and> mode = encodePathSegment then c \<in> set ''/;,?''
      else if c \<in> set ''$&+,/:;=?@'' \<and> mode = encodeUserPassword then c \<in> set ''@/?:''
      else if c \<in> set ''$&+,/:;=?@'' \<and> mode = encodeQueryComponent then True
      else if c \<in> set ''$&+,/:;=?@'' \<and> mode = encodeFragment then False
      else if mode = encodeFragment \<and> c \<in> set ''!()*'' then False
      else True)"

text \<open>The first loop of \<open>unescape\<close>, which checks the escapes; \<open>None\<close> is no error.\<close>

fun unescape_check :: "string \<Rightarrow> encoding \<Rightarrow> error option" where
  "unescape_check [] mode = None"
| "unescape_check [c] mode =
     (if c = CHR ''%'' then Some (UrlError (''invalid URL escape '' @ [c]))
      else if c \<noteq> CHR ''+'' \<and> (mode = encodeHost \<or> mode = encodeZone) \<and> byte c < 128 \<and>
              shouldEscape c encodeHost
        then Some (UrlError (''invalid character in host name '' @ [c]))
      else None)"
| "unescape_check [c, a] mode =
     (if c = CHR ''%'' then Some (UrlError (''invalid URL escape '' @ [c, a]))
      else if c \<noteq> CHR ''+'' \<and> (mode = encodeHost \<or> mode = encodeZone) \<and> byte c < 128 \<and>
              shouldEscape c encodeHost
        then Some (UrlError (''invalid character in host name '' @ [c]))
      else unescape_check [a] mode)"
| "unescape_check (c # a # b # rest) mode =
     (if c = CHR ''%'' then
        (if \<not> ishex a \<or> \<not> ishex b then Some (UrlError (''invalid URL escape '' @ [c, a, b]))
         else if mode = encodeHost \<and> unhex a < 8 \<and> [c, a, b] \<noteq> ''%25''
           then Some (UrlError (''invalid URL escape '' @ [c, a, b]))
         else if mode = encodeZone \<and> [c, a, b] \<noteq> ''%25'' \<and> unhex a * 16 + unhex b \<noteq> 32 \<and>
                 shouldEscape (char_of (unhex a * 16 + unhex b)) encodeHost
           then Some (UrlError (''invalid URL escape '' @ [c, a, b]))
         else unescape_check rest mode)
      else if c \<noteq> CHR ''+'' \<and> (mode = encodeHost \<or> mode = encodeZone) \<and> byte c < 128 \<and>
              shouldEscape c encodeHost
        then Some (UrlError (''invalid character in host name '' @ [c]))
      else unescape_check (a # b # rest) mode)"

text \<open>The second loop of \<open>unescape\<close>, which decodes; it runs on checked input only.\<close>

fun unescape_bytes :: "string \<Rightarrow> encoding \<Rightarrow> string" where
  "unescape_bytes (c # a # b # rest) mode =
     (if c = CHR ''%'' then char_of (unhex a * 16 + unhex b) # unescape_bytes rest mode
      else if c = CHR ''+'' \<and> mode = encodeQueryComponent then CHR '' '' # unescape_bytes (a # b # rest) mode
      else c # unescape_bytes (a # b # rest) mode)"
| "unescape_bytes (c # s) mode =
     (if c = CHR ''+'' \<and> mode = encodeQueryComponent then CHR '' '' # unescape_bytes s mode
      else c # unescape_bytes s mode)"
| "unescape_bytes [] mode = []"

definition unescape :: "string \<Rightarrow> encoding \<Rightarrow> error + string" where
  "unescape s mode =
     (case unescape_check s mode of
        Some err \<Rightarrow> Inl err
      | None \<Rightarrow> Inr (unescape_bytes s mode))"

definition escape :: "string \<Rightarrow> encoding \<Rightarrow> string" where
  "escape s mode =
     concat (map (\<lambda>c.
       if shouldEscape c mode then
         (if c = CHR '' '' \<and> mode = encodeQueryComponent then ''+''
          else [CHR ''%'', upperhex (byte c div 16), upperhex (byte c mod 16)])
       else [c]) s)"

text \<open>
  \<open>getScheme\<close>: \<open>pre\<close> is the part of \<open>rawURL\<close> already scanned, so \<open>pre = []\<close> is
  \<open>i == 0\<close>.
\<close>

fun getScheme_from :: "string \<Rightarrow> string \<Rightarrow> string \<Rightarrow> error + (string \<times> string)" where
  "getScheme_from pre [] rawURL = Inr ([], rawURL)"
| "getScheme_from pre (c # cs) rawURL =
     (if is_lower_byte c \<or> is_upper_byte c then getScheme_from (pre @ [c]) cs rawURL
      else if is_digit_byte c \<or> c = CHR ''+'' \<or> c = CHR ''-'' \<or> c = CHR ''.'' then
        (if pre = [] then Inr ([], rawURL) else getScheme_from (pre @ [c]) cs rawURL)
      else if c = CHR '':'' then
        (if pre = [] then Inl (UrlError ''missing protocol scheme'') else Inr (pre, cs))
      else Inr ([], rawURL))"

definition getScheme :: "string \<Rightarrow> error + (string \<times> string)" where
  "getScheme rawURL = getScheme_from [] rawURL rawURL"

definition ToLower :: "string \<Rightarrow> string" where
  "ToLower s = map (\<lambda>c. if is_upper_byte c then char_of (byte c + 32) else c) s"

text \<open>\<open>strings.Cut\<close>, \<open>HasPrefix\<close>, \<open>HasSuffix\<close>, \<open>Count\<close> and \<open>Index\<close>.\<close>

definition Cut :: "string \<Rightarrow> char \<Rightarrow> string \<times> string" where
  "Cut s sep = (takeWhile (\<lambda>c. c \<noteq> sep) s, drop 1 (dropWhile (\<lambda>c. c \<noteq> sep) s))"

definition HasPrefix :: "string \<Rightarrow> string \<Rightarrow> bool" where
  "HasPrefix s p = (take (length p) s = p)"

definition HasSuffix :: "string \<Rightarrow> string \<Rightarrow> bool" where
  "HasSuffix s p = (length p \<le> length s \<and> drop (length s - length p) s = p)"

definition Count_byte :: "string \<Rightarrow> char \<Rightarrow> nat" where
  "Count_byte s c = length (filter (\<lambda>x. x = c) s)"

fun Index :: "string \<Rightarrow> string \<Rightarrow> int" where
  "Index [] sub = (if sub = [] then 0 else - 1)"
| "Index (c # s) sub =
     (if HasPrefix (c # s) sub then 0
      else let i = Index s sub in if i < 0 then - 1 else i + 1)"

definition validOptionalPort :: "string \<Rightarrow> bool" where
  "validOptionalPort port =
     (case port of
        [] \<Rightarrow> True
      | c # ds \<Rightarrow> c = CHR '':'' \<and> list_all is_digit_byte ds)"

definition validUserinfo :: "string \<Rightarrow> bool" where
  "validUserinfo s =
     list_all (\<lambda>r. is_upper_byte r \<or> is_lower_byte r \<or> is_digit_byte r \<or>
                   r \<in> set ''-._:~!$&()*+,;=%@'' \<or> r = CHR 0x27) s"

definition parseHost :: "string \<Rightarrow> error + string" where
  "parseHost host =
     (if HasPrefix host ''['' then
        (let i = LastIndex_byte host (CHR '']'') in
         if i < 0 then Inl (UrlError ''missing ] in host'')
         else if \<not> validOptionalPort (drop (nat i + 1) host)
           then Inl (UrlError ''invalid port after host'')
         else let zone = Index (take (nat i) host) ''%25'' in
           if zone \<ge> 0 then
             (case unescape (take (nat zone) host) encodeHost of
                Inl err \<Rightarrow> Inl err
              | Inr host1 \<Rightarrow>
                  (case unescape (take (nat i - nat zone) (drop (nat zone) host)) encodeZone of
                     Inl err \<Rightarrow> Inl err
                   | Inr host2 \<Rightarrow>
                       (case unescape (drop (nat i) host) encodeHost of
                          Inl err \<Rightarrow> Inl err
                        | Inr host3 \<Rightarrow> Inr (host1 @ host2 @ host3))))
           else unescape host encodeHost)
      else if LastIndex_byte host (CHR '':'') \<noteq> - 1 \<and>
              \<not> validOptionalPort (drop (nat (LastIndex_byte host (CHR '':''))) host)
        then Inl (UrlError ''invalid port after host'')
      else unescape host encodeHost)"

definition parseAuthority :: "string \<Rightarrow> error + (Userinfo option \<times> string)" where
  "parseAuthority authority =
     (let i = LastIndex_byte authority (CHR ''@'') in
      case parseHost (if i < 0 then authority else drop (nat i + 1) authority) of
        Inl err \<Rightarrow> Inl err
      | Inr host \<Rightarrow>
          if i < 0 then Inr (None, host)
          else let userinfo = take (nat i) authority in
            if \<not> validUserinfo userinfo then Inl (UrlError ''net/url: invalid userinfo'')
            else if CHR '':'' \<notin> set userinfo then
              (case unescape userinfo encodeUserPassword of
                 Inl err \<Rightarrow> Inl err
               | Inr u \<Rightarrow> Inr (Some \<lparr>username = u, password = [], passwordSet = False\<rparr>, host))
            else
              (case unescape (fst (Cut userinfo (CHR '':''))) encodeUserPassword of
                 Inl err \<Rightarrow> Inl err
               | Inr u \<Rightarrow>
                   (case unescape (snd (Cut userinfo (CHR '':''))) encodeUserPassword of
                      Inl err \<Rightarrow> Inl err
                    | Inr p \<Rightarrow> Inr (Some \<lparr>username = u, password = p, passwordSet = True\<rparr>, host))))"

definition zero_URL :: URL where
  "zero_URL = \<lparr>Scheme = [], Opaque = [], User = None, Host = [], Path = [], RawPath = [],
               OmitHost = False, ForceQuery = False, RawQuery = [], Fragment = [], RawFragment = []\<rparr>"

definition setPath :: "URL \<Rightarrow> string \<Rightarrow> error + URL" where
  "setPath u p =
     (case unescape p encodePath of
        Inl err \<Rightarrow> Inl err
      | Inr path \<Rightarrow>
          Inr (u\<lparr>Path := path, RawPath := (if p = escape path encodePath then [] else p)\<rparr>))"

definition setFragment :: "URL \<Rightarrow> string \<Rightarrow> error + URL" where
  "setFragment u f =
     (case unescape f encodeFragment of
        Inl err \<Rightarrow> Inl err
      | Inr frag \<Rightarrow>
          Inr (u\<lparr>Fragment := frag, RawFragment := (if f = escape frag encodeFragment then [] else f)\<rparr>))"

text \<open>\<open>parse(rawURL, viaRequest)\<close> with \<open>viaRequest = false\<close>, as \<open>url.Parse\<close> calls it.\<close>

definition parse :: "string \<Rightarrow> error + URL" where
  "parse rawURL =
     (if stringContainsCTLByte rawURL then Inl (UrlError ''net/url: invalid control character in URL'')
      else if rawURL = ''*'' then Inr (zero_URL\<lparr>Path := ''*''\<rparr>)
      else case getScheme rawURL of
        Inl err \<Rightarrow> Inl err
      | Inr (scheme0, rest0) \<Rightarrow>
          let scheme = ToLower scheme0;
              force = (HasSuffix rest0 ''?'' \<and> Count_byte rest0 (CHR ''?'') = 1);
              rest = (if force then butlast rest0 else fst (Cut rest0 (CHR ''?'')));
              query = (if force then [] else snd (Cut rest0 (CHR ''?'')));
              url = zero_URL\<lparr>Scheme := scheme, ForceQuery := force, RawQuery := query\<rparr>
          in
          if \<not> HasPrefix rest ''/'' \<and> scheme \<noteq> [] then Inr (url\<lparr>Opaque := rest\<rparr>)
          else if \<not> HasPrefix rest ''/'' \<and> CHR '':'' \<in> set (fst (Cut rest (CHR ''/'')))
            then Inl (UrlError ''first path segment in URL cannot contain colon'')
          else if (scheme \<noteq> [] \<or> \<not> HasPrefix rest ''///'') \<and> HasPrefix rest ''//'' then
            (let authority0 = drop 2 rest;
                 authority = takeWhile (\<lambda>c. c \<noteq> CHR ''/'') authority0;
                 rest' = dropWhile (\<lambda>c. c \<noteq> CHR ''/'') authority0
             in case parseAuthority authority of
                  Inl err \<Rightarrow> Inl err
                | Inr (user, host) \<Rightarrow> setPath (url\<lparr>User := user, Host := host\<rparr>) rest')
          else if scheme \<noteq> [] \<and> HasPrefix rest ''/'' then setPath (url\<lparr>OmitHost := True\<rparr>) rest
          else setPath url rest)"

text \<open>\<open>url.Parse\<close>: the fragment is cut off first and set last.\<close>

definition Parse :: "string \<Rightarrow> error + URL" where
  "Parse rawURL =
     (case parse (fst (Cut rawURL (CHR ''#''))) of
        Inl err \<Rightarrow> Inl err
      | Inr url \<Rightarrow>
          if snd (Cut rawURL (CHR ''#'')) = [] then Inr url
          else setFragment url (snd (Cut rawURL (CHR ''#''))))"

definition validEncoded :: "string \<Rightarrow> encoding \<Rightarrow> bool" where
  "validEncoded s mode =
     list_all (\<lambda>c. c \<in> set ''!$&()*+,;=:@[]%'' \<or> c = CHR 0x27 \<or> \<not> shouldEscape c mode) s"

definition EscapedPath :: "URL \<Rightarrow> string" where
  "EscapedPath u =
     (if RawPath u \<noteq> [] \<and> validEncoded (RawPath u) encodePath \<and>
         unescape (RawPath u) encodePath = Inr (Path u) then RawPath u
      else if Path u = ''*'' then ''*''
      else escape (Path u) encodePath)"

definition EscapedFragment :: "URL \<Rightarrow> string" where
  "EscapedFragment u =
     (if RawFragment u \<noteq> [] \<and> validEncoded (RawFragment u) encodeFragment \<and>
         unescape (RawFragment u) encodeFragment = Inr (Fragment u) then RawFragment u
      else escape (Fragment u) encodeFragment)"

definition Userinfo_String :: "Userinfo \<Rightarrow> string" where
  "Userinfo_String ui =
     escape (username ui) encodeUserPassword @
     (if passwordSet ui then '':'' @ escape (password ui) encodeUserPassword else [])"

definition String :: "URL \<Rightarrow> string" where
  "String u =
     (let buf1 = (if Scheme u \<noteq> [] then Scheme u @ '':'' else []);
          buf2 =
            (if Opaque u \<noteq> [] then buf1 @ Opaque u
             else
               let buf3 = buf1 @
                     (if (Scheme u \<noteq> [] \<or> Host u \<noteq> [] \<or> User u \<noteq> None) \<and>
                         \<not> (OmitHost u \<and> Host u = [] \<and> User u = None)
                      then (if Host u \<noteq> [] \<or> Path u \<noteq> [] \<or> User u \<noteq> None then ''//'' else []) @
                           (case User u of None \<Rightarrow> [] | Some ui \<Rightarrow> Userinfo_String ui @ ''@'') @
                           (if Host u \<noteq> [] then escape (Host u) encodeHost else [])
                      else []);
                   path = EscapedPath u;
                   buf4 = buf3 @ (if path \<noteq> [] \<and> hd path \<noteq> CHR ''/'' \<and> Host u \<noteq> [] then ''/'' else []);
                   buf5 = buf4 @ (if buf4 = [] \<and> CHR '':'' \<in> set (fst (Cut path (CHR ''/''))) then ''./'' else [])
               in buf5 @ path);
          buf6 = buf2 @ (if ForceQuery u \<or> RawQuery u \<noteq> [] then ''?'' @ RawQuery u else [])
      in buf6 @ (if Fragment u \<noteq> [] then ''#'' @ EscapedFragment u else []))"

section \<open>Base endpoints and arguments that \<open>url.Parse\<close> reads as plain text\<close>

text \<open>
  A scheme as \<open>getScheme\<close> accepts it: a letter, then letters, digits, \<open>+\<close>, \<open>-\<close> and \<open>.\<close>.
  A plain byte is neither \<open>?\<close> nor \<open>#\<close> nor a control byte, the bytes that end the path
  of a URL or make \<open>url.Parse\<close> refuse it.
\<close>

definition scheme_byte :: "char \<Rightarrow> bool" where
  "scheme_byte c =
     (is_lower_byte c \<or> is_upper_byte c \<or> is_digit_byte c \<or>
      c = CHR ''+'' \<or> c = CHR ''-'' \<or> c = CHR ''.'')"

definition is_scheme :: "string \<Rightarrow> bool" where
  "is_scheme s =
     (case s of [] \<Rightarrow> False
      | c # cs \<Rightarrow> (is_lower_byte c \<or> is_upper_byte c) \<and> list_all scheme_byte cs)"

definition plain_byte :: "char \<Rightarrow> bool" where
  "plain_byte c = (c \<noteq> CHR ''?'' \<and> c \<noteq> CHR ''#'' \<and> 32 \<le> byte c \<and> byte c \<noteq> 127)"

section \<open>A concrete environment\<close>

text \<open>
  A server that refuses connections to the host \<open>offline.example\<close>, answers \<open>200\<close> with
  the body \<open>[]\<close> under \<open>/data_accounting/get_revision_hashes/\<close> and \<open>404\<close> elsewhere,
  and a reader for the JSON bodies it sends.
\<close>

definition sample_Do :: "Request \<Rightarrow> error + Response" where
  "sample_Do req =
     (if Host (URL req) = ''offline.example'' then Inl (TransportError ''connection refused'')
      else if HasPrefix (Path (URL req)) ''/data_accounting/get_revision_hashes/''
        then Inr \<lparr>StatusCode = 200, Body = ''[]''\<rparr>
      else Inr \<lparr>StatusCode = 404, Body = ''404 page not found''\<rparr>)"

definition sample_json_Decode :: "string \<Rightarrow> error + json" where
  "sample_json_Decode body =
     (if body = ''[]'' then Inr (JArray [])
      else if body = ''null'' then Inr JNull
      else Inl (JsonError ''invalid character''))"

definition sample_env :: env where
  "sample_env =
     \<lparr>url_Parse = Parse, url_String = String, client_Do = sample_Do,
      json_Decode = sample_json_Decode,
      unmarshal_RevisionInfo = (\<lambda>j. Inl (JsonError ''json: cannot unmarshal'')),
      unmarshal_Revision = (\<lambda>j. Inl (JsonError ''json: cannot unmarshal'')),
      unmarshal_ServerInfo = (\<lambda>j. Inl (JsonError ''json: cannot unmarshal''))\<rparr>"

text \<open>A client in that environment, and the request it sends for a path.\<close>

definition sample_api :: AquaProtocol where
  "sample_api = \<lparr>apiEndpoint = ''http://localhost:8080'', authToken = ''abc'', server = []\<rparr>"

definition sample_request :: "string \<Rightarrow> Request" where
  "sample_request path =
     \<lparr>Method = ''GET'',
      URL = zero_URL\<lparr>Scheme := ''http'', Host := ''localhost:8080'', Path := path\<rparr>,
      Header = [(''Content-Type'', [''application/json'']), (''Authorization'', [''Bearerabc''])]\<rparr>"

section \<open>Facts about the time functions\<close>

lemma digit_val_le: "is_digit_byte c \<Longrightarrow> digit_val c \<le> 9"
  unfolding is_digit_byte_def digit_val_def by arith

lemma digit_not_sign: "is_digit_byte c \<Longrightarrow> c \<noteq> CHR ''-'' \<and> c \<noteq> CHR ''+''"
  by (auto simp: is_digit_byte_def byte_def)

lemma daysIn_days_of_month: "daysIn m y = days_of_month y m"
  by (auto simp: daysIn_def days_of_month_def isLeap_def gregorian_leap_def dvd_eq_mod_eq_0)

lemma length14:
  assumes "length s = 14"
  obtains c0 c1 c2 c3 c4 c5 c6 c7 c8 c9 c10 c11 c12 c13
  where "s = [c0, c1, c2, c3, c4, c5, c6, c7, c8, c9, c10, c11, c12, c13]"
proof -
  from assms have "length s = Suc (Suc (Suc (Suc (Suc (Suc (Suc (Suc (Suc (Suc (Suc (Suc (Suc (Suc 0)))))))))))))"
    by simp
  then show thesis
    using that by (auto simp: length_Suc_conv)
qed

lemma getnum_two:
  "is_digit_byte a \<Longrightarrow> is_digit_byte b \<Longrightarrow>
   getnum (a # b # rest) fixed = Inr (int (digit_val a) * 10 + int (digit_val b), rest)"
  by (simp add: getnum_def isDigit_def)

lemma atoi_four:
  assumes "is_digit_byte a" "is_digit_byte b" "is_digit_byte c" "is_digit_byte d"
  shows "atoi [a, b, c, d] =
     Some (int (digit_val a) * 1000 + int (digit_val b) * 100 + int (digit_val c) * 10 + int (digit_val d))"
proof -
  have b: "digit_val a \<le> 9" "digit_val b \<le> 9" "digit_val c \<le> 9" "digit_val d \<le> 9"
    using assms by (simp_all add: digit_val_le)
  have "leadingInt [a, b, c, d] 0 =
      Some (((digit_val a * 10 + digit_val b) * 10 + digit_val c) * 10 + digit_val d, [])"
    using assms b by (simp add: Let_def)
  then show ?thesis
    using digit_not_sign[OF assms(1)] b by (simp add: atoi_def Let_def)
qed

lemma time_Parse_stamp:
  assumes "is_YYYYMMDDHHMMSS s"
  shows "time_Parse layout s = Inr (stamp_time s)"
proof -
  from assms have len: "length s = 14" by (simp add: is_YYYYMMDDHHMMSS_def)
  then obtain c0 c1 c2 c3 c4 c5 c6 c7 c8 c9 c10 c11 c12 c13
    where s: "s = [c0, c1, c2, c3, c4, c5, c6, c7, c8, c9, c10, c11, c12, c13]"
    by (rule length14)
  from assms s have d: "is_digit_byte c0" "is_digit_byte c1" "is_digit_byte c2" "is_digit_byte c3"
    "is_digit_byte c4" "is_digit_byte c5" "is_digit_byte c6" "is_digit_byte c7"
    "is_digit_byte c8" "is_digit_byte c9" "is_digit_byte c10" "is_digit_byte c11"
    "is_digit_byte c12" "is_digit_byte c13"
    by (simp_all add: is_YYYYMMDDHHMMSS_def)
  from assms s have r: "1 \<le> stamp_field s 4 2" "stamp_field s 4 2 \<le> 12"
      "1 \<le> stamp_field s 6 2" "stamp_field s 6 2 \<le> days_of_month (stamp_field s 0 4) (stamp_field s 4 2)"
      "stamp_field s 8 2 < 24" "stamp_field s 10 2 < 60" "stamp_field s 12 2 < 60"
    by (simp_all add: is_YYYYMMDDHHMMSS_def)
  have f: "stamp_field s 0 4 = int (digit_val c0) * 1000 + int (digit_val c1) * 100 + int (digit_val c2) * 10 + int (digit_val c3)"
     "stamp_field s 4 2 = int (digit_val c4) * 10 + int (digit_val c5)"
     "stamp_field s 6 2 = int (digit_val c6) * 10 + int (digit_val c7)"
     "stamp_field s 8 2 = int (digit_val c8) * 10 + int (digit_val c9)"
     "stamp_field s 10 2 = int (digit_val c10) * 10 + int (digit_val c11)"
     "stamp_field s 12 2 = int (digit_val c12) * 10 + int (digit_val c13)"
    by (simp_all add: s stamp_field_def digits_val_def)
  have y: "parse_chunk stdLongYear (t, s) = Inr (t\<lparr>Year := stamp_field s 0 4\<rparr>, drop 4 s)" for t
    using d by (simp add: parse_chunk_def s isDigit_def atoi_four f[unfolded s])
  show ?thesis
    using r unfolding f
    apply (simp add: time_Parse_def layout_def y)
    apply (simp add: s parse_chunk_def getnum_two d Date_def stamp_time_def f[unfolded s] daysIn_days_of_month)
    done
qed

lemma leadingInt_digits:
  "list_all is_digit_byte s \<Longrightarrow> x < 10 ^ k \<Longrightarrow> length s + k \<le> 18 \<Longrightarrow>
   \<exists>q. leadingInt s x = Some (q, []) \<and> q < 10 ^ 18"
proof (induction s arbitrary: x k)
  case Nil
  have "(10::nat) ^ k \<le> 10 ^ 18"
    using Nil.prems(3) by (intro power_increasing) simp_all
  with Nil.prems(2) show ?case by simp
next
  case (Cons c s)
  from Cons.prems have c: "is_digit_byte c" and k: "k \<le> 17" by simp_all
  have "(10::nat) ^ k \<le> 10 ^ 17"
    using k by (intro power_increasing) simp_all
  with Cons.prems(2) have x: "x < 10 ^ 17" by simp
  have x': "x * 10 + digit_val c < 10 ^ Suc k"
    using Cons.prems(2) digit_val_le[OF c] by simp
  have "(10::nat) ^ Suc k \<le> 10 ^ 18"
    using k by (intro power_increasing) simp_all
  with x' have x18: "x * 10 + digit_val c < 10 ^ 18" by simp
  from Cons.IH[OF _ x'] Cons.prems obtain q
    where "leadingInt s (x * 10 + digit_val c) = Some (q, [])" "q < 10 ^ 18"
    by auto
  then show ?case
    using c x x18 by (simp add: Let_def)
qed

lemma atoi_digits:
  assumes "list_all is_digit_byte s" "length s \<le> 9"
  shows "\<exists>n. atoi s = Some n \<and> 0 \<le> n"
proof -
  from leadingInt_digits[of s 0 0] assms obtain q
    where q: "leadingInt s 0 = Some (q, [])" "q < 10 ^ 18" by auto
  have "\<not> (s \<noteq> [] \<and> (hd s = CHR ''-'' \<or> hd s = CHR ''+''))"
    using assms(1) digit_not_sign[of "hd s"] by (cases s) auto
  then show ?thesis
    using q by (auto simp: atoi_def Let_def)
qed

lemma parseNanoseconds_fraction:
  assumes "commaOrPeriod sep" "list_all is_digit_byte ds"
  shows "\<exists>ns. parseNanoseconds (sep # ds) (Suc (length ds)) = Inr ns"
proof -
  let ?n = "Suc (length ds)"
  let ?v = "if ?n > 10 then take 10 (sep # ds) else sep # ds"
  let ?nbytes = "if ?n > 10 then 10 else ?n"
  have "list_all is_digit_byte (take (?nbytes - 1) (drop 1 ?v))"
    using assms(2) by (auto simp: list_all_iff dest: in_set_takeD)
  moreover have "length (take (?nbytes - 1) (drop 1 ?v)) \<le> 9"
    by auto
  ultimately obtain n where "atoi (take (?nbytes - 1) (drop 1 ?v)) = Some n" "0 \<le> n"
    using atoi_digits by blast
  then show ?thesis
    using assms(1) by (simp add: parseNanoseconds_def Let_def)
qed

lemma getnum_fixed_Inr:
  assumes "getnum s True = Inr (n, rest)"
  shows "\<exists>a b. s = a # b # rest \<and> is_digit_byte a \<and> is_digit_byte b \<and>
           n = int (digit_val a) * 10 + int (digit_val b)"
proof (cases s)
  case Nil
  with assms show ?thesis by (simp add: getnum_def isDigit_def)
next
  case (Cons a s')
  show ?thesis
  proof (cases s')
    case Nil
    with Cons assms show ?thesis by (simp add: getnum_def isDigit_def split: if_splits)
  next
    case (Cons b s'')
    with \<open>s = a # s'\<close> assms show ?thesis
      by (auto simp: getnum_def isDigit_def split: if_splits)
  qed
qed

lemma getnum_free_Inr:
  assumes "getnum s False = Inr (n, rest)"
  shows "(\<exists>a b. s = a # b # rest \<and> is_digit_byte a \<and> is_digit_byte b \<and>
           n = int (digit_val a) * 10 + int (digit_val b)) \<or> \<not> isDigit rest 0"
proof (cases s)
  case Nil
  with assms show ?thesis by (simp add: getnum_def isDigit_def)
next
  case (Cons a s')
  show ?thesis
  proof (cases s')
    case Nil
    with Cons assms show ?thesis by (auto simp: getnum_def isDigit_def split: if_splits)
  next
    case (Cons b s'')
    with \<open>s = a # s'\<close> assms show ?thesis
      by (auto simp: getnum_def isDigit_def split: if_splits)
  qed
qed

lemma atoi_four_Some:
  assumes "is_digit_byte a" "atoi [a, b, c, d] = Some y"
  shows "is_digit_byte b \<and> is_digit_byte c \<and> is_digit_byte d"
  using assms digit_not_sign[OF assms(1)]
  by (auto simp: atoi_def Let_def split: if_splits option.splits)

lemma year_Inr:
  assumes "parse_chunk stdLongYear (t, s) = Inr (t', r)"
  shows "\<exists>a b c d. s = a # b # c # d # r \<and> is_digit_byte a \<and> is_digit_byte b \<and>
           is_digit_byte c \<and> is_digit_byte d \<and>
           t' = t\<lparr>Year := int (digit_val a) * 1000 + int (digit_val b) * 100 +
                           int (digit_val c) * 10 + int (digit_val d)\<rparr>"
proof -
  from assms have len: "4 \<le> length s" and d0: "isDigit s 0"
    by (auto simp: parse_chunk_def split: if_splits)
  from len obtain a b c d rest where s: "s = a # b # c # d # rest"
    by (cases s; cases "tl s"; cases "tl (tl s)"; cases "tl (tl (tl s))") auto
  from d0 s have a: "is_digit_byte a" by (simp add: isDigit_def)
  from assms s obtain y where y: "atoi [a, b, c, d] = Some y" and t': "t' = t\<lparr>Year := y\<rparr>" and r: "r = rest"
    by (auto simp: parse_chunk_def isDigit_def a split: if_splits option.splits)
  from atoi_four_Some[OF a y] have bcd: "is_digit_byte b" "is_digit_byte c" "is_digit_byte d"
    by simp_all
  from atoi_four[OF a bcd] y t' s r a bcd show ?thesis by auto
qed

lemma two_digit_Inr:
  assumes "parse_chunk c (t, s) = Inr (t', r)" "c = stdZeroMonth \<or> c = stdZeroDay \<or> c = stdZeroMinute"
  shows "\<exists>a b. s = a # b # r \<and> is_digit_byte a \<and> is_digit_byte b \<and>
           (let n = int (digit_val a) * 10 + int (digit_val b) in
            (c = stdZeroMonth \<and> 1 \<le> n \<and> n \<le> 12 \<and> t' = t\<lparr>Month := n\<rparr>) \<or>
            (c = stdZeroDay \<and> t' = t\<lparr>Day := n\<rparr>) \<or>
            (c = stdZeroMinute \<and> n < 60 \<and> t' = t\<lparr>Minute := n\<rparr>))"
  using assms
  by (auto simp: parse_chunk_def Let_def split: sum.splits if_splits dest!: getnum_fixed_Inr)

lemma hour_minute_Inr:
  assumes "parse_chunk stdHour (t, s) = Inr (t1, r1)"
      and "parse_chunk stdZeroMinute (t1, r1) = Inr (t2, r2)"
  shows "\<exists>a b c d. s = a # b # c # d # r2 \<and> is_digit_byte a \<and> is_digit_byte b \<and>
           is_digit_byte c \<and> is_digit_byte d \<and>
           int (digit_val a) * 10 + int (digit_val b) < 24 \<and>
           int (digit_val c) * 10 + int (digit_val d) < 60 \<and>
           t2 = t\<lparr>Hour := int (digit_val a) * 10 + int (digit_val b),
                   Minute := int (digit_val c) * 10 + int (digit_val d)\<rparr>"
proof -
  from assms(2) obtain c d where m: "r1 = c # d # r2" "is_digit_byte c" "is_digit_byte d"
      "int (digit_val c) * 10 + int (digit_val d) < 60"
      "t2 = t1\<lparr>Minute := int (digit_val c) * 10 + int (digit_val d)\<rparr>"
    using two_digit_Inr[OF assms(2)] by (auto simp: Let_def)
  from m have dig: "isDigit r1 0" by (simp add: isDigit_def)
  from assms(1) obtain h where h: "getnum s False = Inr (h, r1)" "h < 24" "t1 = t\<lparr>Hour := h\<rparr>"
    by (auto simp: parse_chunk_def split: sum.splits if_splits)
  from getnum_free_Inr[OF h(1)] dig obtain a b where
    "s = a # b # r1" "is_digit_byte a" "is_digit_byte b" "h = int (digit_val a) * 10 + int (digit_val b)"
    by auto
  with m h show ?thesis by auto
qed

lemma takeWhile_covers: "length xs \<le> length (takeWhile P xs) \<Longrightarrow> list_all P xs"
proof -
  assume "length xs \<le> length (takeWhile P xs)"
  moreover have "length (takeWhile P xs) + length (dropWhile P xs) = length xs"
    by (metis length_append takeWhile_dropWhile_id)
  ultimately have "length (dropWhile P xs) = 0" by arith
  then show ?thesis by (simp add: list_all_iff)
qed

lemma second_Inr:
  assumes "parse_chunk stdZeroSecond (t, s) = Inr (t', [])"
  shows "\<exists>a b f ns. s = a # b # f \<and> is_digit_byte a \<and> is_digit_byte b \<and>
           int (digit_val a) * 10 + int (digit_val b) < 60 \<and>
           (f = [] \<or> is_fraction f) \<and>
           t' = t\<lparr>Second := int (digit_val a) * 10 + int (digit_val b), Nanosecond := ns\<rparr>"
proof -
  from assms obtain n f where g: "getnum s True = Inr (n, f)" and n: "n < 60"
    by (auto simp: parse_chunk_def split: sum.splits if_splits)
  from getnum_fixed_Inr[OF g] obtain a b where ab: "s = a # b # f" "is_digit_byte a" "is_digit_byte b"
      "n = int (digit_val a) * 10 + int (digit_val b)"
    by auto
  have n0: "\<not> n < 0" using ab(4) by simp
  show ?thesis
  proof (cases "length f \<ge> 2 \<and> commaOrPeriod (f ! 0) \<and> isDigit f 1")
    case False
    with assms g n n0 have "f = []" "t' = t\<lparr>Second := n\<rparr>"
      by (auto simp: parse_chunk_def split: sum.splits if_splits)
    then have "t' = t\<lparr>Second := n, Nanosecond := Nanosecond t\<rparr>" by simp
    with ab n \<open>f = []\<close> show ?thesis by blast
  next
    case True
    then obtain sep d1 ds where f: "f = sep # d1 # ds"
      by (cases f; cases "tl f") auto
    from True f have sep: "commaOrPeriod sep" and d1: "is_digit_byte d1"
      by (simp_all add: isDigit_def)
    from assms g n n0 True obtain ns where
        dr: "drop (count_digits_from f 2) f = []" and
        t': "t' = t\<lparr>Second := n, Nanosecond := ns\<rparr>"
      by (auto simp: parse_chunk_def Let_def split: sum.splits if_splits)
    from dr f have "length ds \<le> length (takeWhile is_digit_byte ds)"
      by (simp add: count_digits_from_def)
    then have "list_all is_digit_byte ds" by (rule takeWhile_covers)
    with sep d1 f have "is_fraction f"
      by (simp add: is_fraction_def commaOrPeriod_def)
    with ab n t' show ?thesis by blast
  qed
qed

lemma second_fraction:
  assumes "is_digit_byte a" "is_digit_byte b" "int (digit_val a) * 10 + int (digit_val b) < 60"
      and "is_fraction f"
  shows "\<exists>ns. parse_chunk stdZeroSecond (t, a # b # f) =
           Inr (t\<lparr>Second := int (digit_val a) * 10 + int (digit_val b), Nanosecond := ns\<rparr>, [])"
proof -
  from assms(4) obtain sep d1 ds where f: "f = sep # d1 # ds" and sep: "commaOrPeriod sep"
      and ds: "list_all is_digit_byte (d1 # ds)"
    by (cases f; cases "tl f") (auto simp: is_fraction_def commaOrPeriod_def)
  from ds have tw: "takeWhile is_digit_byte ds = ds"
    by (simp add: list_all_iff)
  have n: "count_digits_from f 2 = Suc (length (d1 # ds))"
    by (simp add: count_digits_from_def f tw)
  from parseNanoseconds_fraction[OF sep ds] obtain ns
    where ns: "parseNanoseconds f (count_digits_from f 2) = Inr ns"
    unfolding n unfolding f by blast
  have cond: "length f \<ge> 2 \<and> commaOrPeriod (f ! 0) \<and> isDigit f 1"
    using f sep ds by (simp add: isDigit_def)
  have dr: "drop (count_digits_from f 2) f = []"
    unfolding n by (simp add: f)
  show ?thesis
    using assms(1-3) cond ns dr
    by (intro exI[of _ ns]) (simp add: parse_chunk_def getnum_two Let_def)
qed

lemma parse_chunks_layout_Inr:
  assumes "parse_chunks layout (t0, s) = Inr (t6, [])"
  shows "\<exists>c0 c1 c2 c3 c4 c5 c6 c7 c8 c9 c10 c11 c12 c13 f ns.
           s = [c0, c1, c2, c3, c4, c5, c6, c7, c8, c9, c10, c11, c12, c13] @ f \<and>
           list_all is_digit_byte [c0, c1, c2, c3, c4, c5, c6, c7, c8, c9, c10, c11, c12, c13] \<and>
           (f = [] \<or> is_fraction f) \<and>
           1 \<le> int (digit_val c4) * 10 + int (digit_val c5) \<and>
           int (digit_val c4) * 10 + int (digit_val c5) \<le> 12 \<and>
           int (digit_val c8) * 10 + int (digit_val c9) < 24 \<and>
           int (digit_val c10) * 10 + int (digit_val c11) < 60 \<and>
           int (digit_val c12) * 10 + int (digit_val c13) < 60 \<and>
           t6 = t0\<lparr>Year := int (digit_val c0) * 1000 + int (digit_val c1) * 100 +
                            int (digit_val c2) * 10 + int (digit_val c3),
                   Month := int (digit_val c4) * 10 + int (digit_val c5),
                   Day := int (digit_val c6) * 10 + int (digit_val c7),
                   Hour := int (digit_val c8) * 10 + int (digit_val c9),
                   Minute := int (digit_val c10) * 10 + int (digit_val c11),
                   Second := int (digit_val c12) * 10 + int (digit_val c13),
                   Nanosecond := ns\<rparr>"
proof -
  from assms obtain t1 r1 t2 r2 t3 r3 t4 r4 t5 r5 where
      p1: "parse_chunk stdLongYear (t0, s) = Inr (t1, r1)" and
      p2: "parse_chunk stdZeroMonth (t1, r1) = Inr (t2, r2)" and
      p3: "parse_chunk stdZeroDay (t2, r2) = Inr (t3, r3)" and
      p4: "parse_chunk stdHour (t3, r3) = Inr (t4, r4)" and
      p5: "parse_chunk stdZeroMinute (t4, r4) = Inr (t5, r5)" and
      p6: "parse_chunk stdZeroSecond (t5, r5) = Inr (t6, [])"
    by (auto simp: layout_def split: sum.splits)
  from year_Inr[OF p1] obtain c0 c1 c2 c3 where
      y: "s = c0 # c1 # c2 # c3 # r1" "is_digit_byte c0" "is_digit_byte c1" "is_digit_byte c2"
         "is_digit_byte c3"
         "t1 = t0\<lparr>Year := int (digit_val c0) * 1000 + int (digit_val c1) * 100 +
                            int (digit_val c2) * 10 + int (digit_val c3)\<rparr>"
    by blast
  from two_digit_Inr[OF p2] obtain c4 c5 where
      m: "r1 = c4 # c5 # r2" "is_digit_byte c4" "is_digit_byte c5"
         "1 \<le> int (digit_val c4) * 10 + int (digit_val c5)"
         "int (digit_val c4) * 10 + int (digit_val c5) \<le> 12"
         "t2 = t1\<lparr>Month := int (digit_val c4) * 10 + int (digit_val c5)\<rparr>"
    by (auto simp: Let_def)
  from two_digit_Inr[OF p3] obtain c6 c7 where
      d: "r2 = c6 # c7 # r3" "is_digit_byte c6" "is_digit_byte c7"
         "t3 = t2\<lparr>Day := int (digit_val c6) * 10 + int (digit_val c7)\<rparr>"
    by (auto simp: Let_def)
  from hour_minute_Inr[OF p4 p5] obtain c8 c9 c10 c11 where
      h: "r3 = c8 # c9 # c10 # c11 # r5" "is_digit_byte c8" "is_digit_byte c9"
         "is_digit_byte c10" "is_digit_byte c11"
         "int (digit_val c8) * 10 + int (digit_val c9) < 24"
         "int (digit_val c10) * 10 + int (digit_val c11) < 60"
         "t5 = t3\<lparr>Hour := int (digit_val c8) * 10 + int (digit_val c9),
                    Minute := int (digit_val c10) * 10 + int (digit_val c11)\<rparr>"
    by blast
  from second_Inr[OF p6] obtain c12 c13 f ns where
      sc: "r5 = c12 # c13 # f" "is_digit_byte c12" "is_digit_byte c13"
          "int (digit_val c12) * 10 + int (digit_val c13) < 60" "f = [] \<or> is_fraction f"
          "t6 = t5\<lparr>Second := int (digit_val c12) * 10 + int (digit_val c13), Nanosecond := ns\<rparr>"
    by blast
  have s: "s = [c0, c1, c2, c3, c4, c5, c6, c7, c8, c9, c10, c11, c12, c13] @ f"
    by (simp add: y(1) m(1) d(1) h(1) sc(1))
  have t6: "t6 = t0\<lparr>Year := int (digit_val c0) * 1000 + int (digit_val c1) * 100 +
                            int (digit_val c2) * 10 + int (digit_val c3),
                   Month := int (digit_val c4) * 10 + int (digit_val c5),
                   Day := int (digit_val c6) * 10 + int (digit_val c7),
                   Hour := int (digit_val c8) * 10 + int (digit_val c9),
                   Minute := int (digit_val c10) * 10 + int (digit_val c11),
                   Second := int (digit_val c12) * 10 + int (digit_val c13),
                   Nanosecond := ns\<rparr>"
    by (simp add: y(6) m(6) d(4) h(8) sc(6))
  have dg: "list_all is_digit_byte [c0, c1, c2, c3, c4, c5, c6, c7, c8, c9, c10, c11, c12, c13]"
    using y m d h sc by simp
  from s t6 dg sc(4,5) m(4,5) h(6,7) show ?thesis by blast
qed

lemma stamp_fields:
  fixes c0 c1 c2 c3 c4 c5 c6 c7 c8 c9 c10 c11 c12 c13 :: char
  defines "d \<equiv> [c0, c1, c2, c3, c4, c5, c6, c7, c8, c9, c10, c11, c12, c13]"
  shows "stamp_field (d @ f) 0 4 = int (digit_val c0) * 1000 + int (digit_val c1) * 100 +
            int (digit_val c2) * 10 + int (digit_val c3)"
    and "stamp_field (d @ f) 4 2 = int (digit_val c4) * 10 + int (digit_val c5)"
    and "stamp_field (d @ f) 6 2 = int (digit_val c6) * 10 + int (digit_val c7)"
    and "stamp_field (d @ f) 8 2 = int (digit_val c8) * 10 + int (digit_val c9)"
    and "stamp_field (d @ f) 10 2 = int (digit_val c10) * 10 + int (digit_val c11)"
    and "stamp_field (d @ f) 12 2 = int (digit_val c12) * 10 + int (digit_val c13)"
  by (simp_all add: d_def stamp_field_def digits_val_def)

lemma time_Parse_Inr:
  assumes "time_Parse layout s = Inr t"
  shows "accepted_stamp s \<and> (\<exists>ns. t = (stamp_time (take 14 s))\<lparr>Nanosecond := ns\<rparr>)"
proof -
  let ?t0 = "Date 0 (-1) (-1) 0 0 0 0"
  from assms obtain t6 where
      pc: "parse_chunks layout (?t0, s) = Inr (t6, [])" and
      day: "1 \<le> Day t6" "Day t6 \<le> daysIn (Month t6) (Year t6)" and
      t: "t = Date (Year t6) (Month t6) (Day t6) (Hour t6) (Minute t6) (Second t6) (Nanosecond t6)"
    by (auto simp: time_Parse_def split: sum.splits if_splits)
  from parse_chunks_layout_Inr[OF pc]
  obtain c0 c1 c2 c3 c4 c5 c6 c7 c8 c9 c10 c11 c12 c13 f ns where
      s: "s = [c0, c1, c2, c3, c4, c5, c6, c7, c8, c9, c10, c11, c12, c13] @ f" and
      dg: "list_all is_digit_byte [c0, c1, c2, c3, c4, c5, c6, c7, c8, c9, c10, c11, c12, c13]" and
      f: "f = [] \<or> is_fraction f" and
      rg: "1 \<le> int (digit_val c4) * 10 + int (digit_val c5)"
          "int (digit_val c4) * 10 + int (digit_val c5) \<le> 12"
          "int (digit_val c8) * 10 + int (digit_val c9) < 24"
          "int (digit_val c10) * 10 + int (digit_val c11) < 60"
          "int (digit_val c12) * 10 + int (digit_val c13) < 60" and
      t6: "t6 = ?t0\<lparr>Year := int (digit_val c0) * 1000 + int (digit_val c1) * 100 +
                            int (digit_val c2) * 10 + int (digit_val c3),
                   Month := int (digit_val c4) * 10 + int (digit_val c5),
                   Day := int (digit_val c6) * 10 + int (digit_val c7),
                   Hour := int (digit_val c8) * 10 + int (digit_val c9),
                   Minute := int (digit_val c10) * 10 + int (digit_val c11),
                   Second := int (digit_val c12) * 10 + int (digit_val c13),
                   Nanosecond := ns\<rparr>"
    by blast
  let ?d = "[c0, c1, c2, c3, c4, c5, c6, c7, c8, c9, c10, c11, c12, c13]"
  have tk: "take 14 s = ?d" "drop 14 s = f" by (simp_all add: s)
  have st: "t = (stamp_time ?d)\<lparr>Nanosecond := ns\<rparr>"
    unfolding t t6 by (simp add: Date_def stamp_time_def stamp_fields[where f = "[]", simplified])
  have "is_YYYYMMDDHHMMSS ?d"
    unfolding is_YYYYMMDDHHMMSS_def stamp_fields[where f = "[]", simplified]
    using dg rg day by (simp add: t6 Date_def daysIn_days_of_month)
  with f st tk show ?thesis
    by (auto simp: accepted_stamp_def)
qed

lemma parse_chunks_append:
  "parse_chunks (xs @ ys) st =
     (case parse_chunks xs st of Inl e \<Rightarrow> Inl e | Inr st' \<Rightarrow> parse_chunks ys st')"
  by (induction xs arbitrary: st) (auto split: sum.splits)

text \<open>Conversely, every accepted stamp parses.\<close>

lemma time_Parse_accepted:
  assumes "accepted_stamp s"
  shows "\<exists>ns. time_Parse layout s = Inr ((stamp_time (take 14 s))\<lparr>Nanosecond := ns\<rparr>)"
proof (cases "drop 14 s = []")
  case True
  with assms have "is_YYYYMMDDHHMMSS s"
    by (simp add: accepted_stamp_def is_YYYYMMDDHHMMSS_def)
  from time_Parse_stamp[OF this] have "time_Parse layout s = Inr ((stamp_time s)\<lparr>Nanosecond := 0\<rparr>)"
    by (simp add: stamp_time_def)
  moreover from True have "take 14 s = s" by simp
  ultimately show ?thesis by auto
next
  case False
  define f where "f = drop 14 s"
  from assms False have v: "is_YYYYMMDDHHMMSS (take 14 s)" and fr: "is_fraction f"
    by (simp_all add: accepted_stamp_def f_def)
  from v have "length (take 14 s) = 14" by (simp add: is_YYYYMMDDHHMMSS_def)
  then obtain c0 c1 c2 c3 c4 c5 c6 c7 c8 c9 c10 c11 c12 c13
    where d: "take 14 s = [c0, c1, c2, c3, c4, c5, c6, c7, c8, c9, c10, c11, c12, c13]"
    by (rule length14)
  let ?d = "[c0, c1, c2, c3, c4, c5, c6, c7, c8, c9, c10, c11, c12, c13]"
  have s: "s = ?d @ f"
    using append_take_drop_id[of 14 s] by (simp add: d f_def)
  note sf = stamp_fields[where f = "[]", simplified]
  from v have dg: "is_digit_byte c0" "is_digit_byte c1" "is_digit_byte c2" "is_digit_byte c3"
    "is_digit_byte c4" "is_digit_byte c5" "is_digit_byte c6" "is_digit_byte c7"
    "is_digit_byte c8" "is_digit_byte c9" "is_digit_byte c10" "is_digit_byte c11"
    "is_digit_byte c12" "is_digit_byte c13"
    by (simp_all add: is_YYYYMMDDHHMMSS_def d)
  from v have r: "1 \<le> int (digit_val c4) * 10 + int (digit_val c5)"
      "int (digit_val c4) * 10 + int (digit_val c5) \<le> 12"
      "1 \<le> int (digit_val c6) * 10 + int (digit_val c7)"
      "int (digit_val c6) * 10 + int (digit_val c7)
         \<le> days_of_month (int (digit_val c0) * 1000 + int (digit_val c1) * 100 +
              int (digit_val c2) * 10 + int (digit_val c3)) (int (digit_val c4) * 10 + int (digit_val c5))"
      "int (digit_val c8) * 10 + int (digit_val c9) < 24"
      "int (digit_val c10) * 10 + int (digit_val c11) < 60"
      "int (digit_val c12) * 10 + int (digit_val c13) < 60"
    unfolding d is_YYYYMMDDHHMMSS_def sf by simp_all
  let ?t0 = "Date 0 (-1) (-1) 0 0 0 0"
  define t5 where "t5 = ?t0\<lparr>Year := int (digit_val c0) * 1000 + int (digit_val c1) * 100 +
                            int (digit_val c2) * 10 + int (digit_val c3),
                   Month := int (digit_val c4) * 10 + int (digit_val c5),
                   Day := int (digit_val c6) * 10 + int (digit_val c7),
                   Hour := int (digit_val c8) * 10 + int (digit_val c9),
                   Minute := int (digit_val c10) * 10 + int (digit_val c11)\<rparr>"
  have five: "parse_chunks [stdLongYear, stdZeroMonth, stdZeroDay, stdHour, stdZeroMinute] (?t0, s)
                = Inr (t5, c12 # c13 # f)"
    using dg r by (simp add: s parse_chunk_def isDigit_def atoi_four getnum_two t5_def)
  from second_fraction[OF dg(13,14) r(7) fr, of t5] obtain ns where
    six: "parse_chunk stdZeroSecond (t5, c12 # c13 # f) =
            Inr (t5\<lparr>Second := int (digit_val c12) * 10 + int (digit_val c13), Nanosecond := ns\<rparr>, [])"
    by blast
  have lay: "layout = [stdLongYear, stdZeroMonth, stdZeroDay, stdHour, stdZeroMinute] @ [stdZeroSecond]"
    by (simp add: layout_def)
  have "parse_chunks layout (?t0, s) =
          Inr (t5\<lparr>Second := int (digit_val c12) * 10 + int (digit_val c13), Nanosecond := ns\<rparr>, [])"
    unfolding lay parse_chunks_append five by (simp add: six)
  then have "time_Parse layout s = Inr ((stamp_time ?d)\<lparr>Nanosecond := ns\<rparr>)"
    using r by (simp add: time_Parse_def t5_def Date_def stamp_time_def sf daysIn_days_of_month)
  then show ?thesis unfolding d by blast
qed

lemma char_of_digit: "is_digit_byte c \<Longrightarrow> char_of (48 + digit_val c) = c"
proof -
  assume "is_digit_byte c"
  then have "48 + digit_val c = of_char c"
    by (simp add: is_digit_byte_def digit_val_def byte_def)
  then show ?thesis by simp
qed

lemma char_of_48: "char_of (48::nat) = CHR ''0''"
proof -
  have "of_char (CHR ''0'') = (48::nat)" by simp
  then have "char_of (48::nat) = char_of (of_char (CHR ''0'') :: nat)" by simp
  then show ?thesis by (simp only: char_of_char)
qed

lemma fixed_digits_zero: "fixed_digits w 0 = replicate w (CHR ''0'')"
  by (induction w) (simp_all add: replicate_append_same char_of_48)

lemma pad_decimal:
  "0 < w \<Longrightarrow> n < 10 ^ w \<Longrightarrow>
   replicate (w - length (decimal n)) (CHR ''0'') @ decimal n = fixed_digits w n"
proof (induction n arbitrary: w rule: decimal.induct)
  case (1 n)
  from "1.prems"(1) obtain v where w: "w = Suc v" by (cases w) auto
  show ?case
  proof (cases "n < 10")
    case True
    then have "decimal n = [char_of (48 + n)]" by (subst decimal.simps) simp
    with True show ?thesis by (simp add: w fixed_digits_zero)
  next
    case False
    then have dn: "decimal n = decimal (n div 10) @ [char_of (48 + n mod 10)]"
      by (subst decimal.simps) simp
    from False "1.prems"(2) have "0 < v" by (cases v) (auto simp: w)
    moreover from "1.prems"(2) have "n div 10 < 10 ^ v"
      by (simp add: w less_mult_imp_div_less mult.commute)
    ultimately have "replicate (v - length (decimal (n div 10))) (CHR ''0'') @ decimal (n div 10)
        = fixed_digits v (n div 10)"
      using "1.IH"[OF False] by blast
    then show ?thesis
      by (simp add: w dn)
  qed
qed

lemma digits_val_fixed:
  "list_all is_digit_byte ds \<Longrightarrow>
   digits_val ds < 10 ^ length ds \<and> fixed_digits (length ds) (digits_val ds) = ds"
proof (induction ds rule: rev_induct)
  case Nil
  then show ?case by (simp add: digits_val_def)
next
  case (snoc c ds)
  then have c: "is_digit_byte c" and ih: "digits_val ds < 10 ^ length ds"
      "fixed_digits (length ds) (digits_val ds) = ds"
    by simp_all
  have v: "digits_val (ds @ [c]) = 10 * digits_val ds + digit_val c"
    by (simp add: digits_val_def)
  have c9: "digit_val c \<le> 9" using c by (rule digit_val_le)
  have "(10 * digits_val ds + digit_val c) div 10 = digits_val ds"
       "(10 * digits_val ds + digit_val c) mod 10 = digit_val c"
    using c9 by simp_all
  moreover have "10 * digits_val ds + digit_val c < 10 ^ Suc (length ds)"
    using ih(1) c9 by simp
  ultimately show ?case
    using ih(2) by (simp add: v char_of_digit[OF c])
qed

lemma appendInt_digits:
  assumes "list_all is_digit_byte ds" "ds \<noteq> []"
  shows "appendInt b (int (digits_val ds)) (length ds) = b @ ds"
  using pad_decimal[of "length ds" "digits_val ds"] digits_val_fixed[OF assms(1)] assms(2)
  by (simp add: appendInt_def Let_def)

lemma appendInt_two:
  assumes "is_digit_byte a" "is_digit_byte b"
  shows "appendInt buf (int (digit_val a) * 10 + int (digit_val b)) 2 = buf @ [a, b]"
proof -
  have "appendInt buf (int (digits_val [a, b])) (length [a, b]) = buf @ [a, b]"
    using assms by (intro appendInt_digits) simp_all
  moreover have "int (digits_val [a, b]) = int (digit_val a) * 10 + int (digit_val b)"
    by (simp add: digits_val_def)
  moreover have "length [a, b] = 2" by simp
  ultimately show ?thesis by (simp only:)
qed

lemma appendInt_four:
  assumes "is_digit_byte a" "is_digit_byte b" "is_digit_byte c" "is_digit_byte d"
  shows "appendInt buf (int (digit_val a) * 1000 + int (digit_val b) * 100 +
            int (digit_val c) * 10 + int (digit_val d)) 4 = buf @ [a, b, c, d]"
proof -
  have "appendInt buf (int (digits_val [a, b, c, d])) (length [a, b, c, d]) = buf @ [a, b, c, d]"
    using assms by (intro appendInt_digits) simp_all
  moreover have "int (digits_val [a, b, c, d]) =
      int (digit_val a) * 1000 + int (digit_val b) * 100 + int (digit_val c) * 10 + int (digit_val d)"
    by (simp add: digits_val_def)
  moreover have "length [a, b, c, d] = 4" by simp
  ultimately show ?thesis by (simp only:)
qed

lemma Format_stamp:
  assumes "is_YYYYMMDDHHMMSS d"
  shows "Format ((stamp_time d)\<lparr>Nanosecond := ns\<rparr>) layout = d"
proof -
  from assms have "length d = 14" by (simp add: is_YYYYMMDDHHMMSS_def)
  then obtain c0 c1 c2 c3 c4 c5 c6 c7 c8 c9 c10 c11 c12 c13
    where d: "d = [c0, c1, c2, c3, c4, c5, c6, c7, c8, c9, c10, c11, c12, c13]"
    by (rule length14)
  from assms have dg: "is_digit_byte c0" "is_digit_byte c1" "is_digit_byte c2" "is_digit_byte c3"
    "is_digit_byte c4" "is_digit_byte c5" "is_digit_byte c6" "is_digit_byte c7"
    "is_digit_byte c8" "is_digit_byte c9" "is_digit_byte c10" "is_digit_byte c11"
    "is_digit_byte c12" "is_digit_byte c13"
    by (simp_all add: is_YYYYMMDDHHMMSS_def d)
  note sf = stamp_fields[where f = "[]", simplified]
  show ?thesis
    unfolding d stamp_time_def sf
    by (simp add: Format_def layout_def format_chunk_def appendInt_two appendInt_four dg)
qed

lemma time_Parse_error:
  assumes "time_Parse layout s = Inl e"
  shows "\<exists>msg. e = ParseError msg"
proof -
  have chunk: "\<exists>msg. e' = ParseError msg" if "parse_chunk c st = Inl e'" for c st e'
    using that
    by (cases c)
       (auto simp: parse_chunk_def getnum_def parseNanoseconds_def Let_def
             split: if_splits sum.splits option.splits prod.splits)
  have chunks: "\<exists>msg. e' = ParseError msg" if "parse_chunks cs st = Inl e'" for cs st e'
    using that by (induction cs arbitrary: st) (auto split: sum.splits dest: chunk)
  from assms show ?thesis
    by (auto simp: time_Parse_def split: sum.splits prod.splits if_splits dest: chunks)
qed

text \<open>The equations that evaluate the time functions on a literal input.\<close>

lemmas time_eval =
  time_Parse_def layout_def parse_chunk_def getnum_def isDigit_def atoi_def
  parseNanoseconds_def count_digits_from_def commaOrPeriod_def is_digit_byte_def
  byte_def digit_val_def Let_def Date_def daysIn_def isLeap_def
  UnmarshalJSON_def ReplaceAll_byte_def dquote_def zero_Time_def

lemmas format_eval =
  Format_def layout_def format_chunk_def appendInt_def decimal.simps Let_def Date_def
  char_of_eq_iff

section \<open>Claims about \<open>Timestamp.UnmarshalJSON\<close>\<close>

text \<open>
  C10. Decoding deletes every double quote of the raw token, wherever it stands, before
  parsing: whenever the bytes that remain are exactly the fourteen digits of a valid
  \<open>YYYYMMDDHHMMSS\<close> date, decoding succeeds and stores that date.
\<close>

theorem UnmarshalJSON_strips_every_quote:
  assumes "is_YYYYMMDDHHMMSS (filter (\<lambda>c. c \<noteq> CHR 0x22) bytes)"
  shows "UnmarshalJSON p bytes =
           (p\<lparr>Time := stamp_time (filter (\<lambda>c. c \<noteq> CHR 0x22) bytes)\<rparr>, None)"
  using time_Parse_stamp[OF assms]
  by (simp add: UnmarshalJSON_def ReplaceAll_byte_def dquote_def)

theorem UnmarshalJSON_strips_every_quote_witness:
  "is_YYYYMMDDHHMMSS
     (filter (\<lambda>c. c \<noteq> CHR 0x22) (CHR 0x22 # ''2024'' @ CHR 0x22 # ''0229'' @ CHR 0x22 # ''235959'' @ [CHR 0x22])) \<and>
   UnmarshalJSON \<lparr>Time = zero_Time\<rparr>
     (CHR 0x22 # ''2024'' @ CHR 0x22 # ''0229'' @ CHR 0x22 # ''235959'' @ [CHR 0x22]) =
     (\<lparr>Time = Date 2024 2 29 23 59 59 0\<rparr>, None)"
proof -
  let ?bytes = "CHR 0x22 # ''2024'' @ CHR 0x22 # ''0229'' @ CHR 0x22 # ''235959'' @ [CHR 0x22]"
  have h: "is_YYYYMMDDHHMMSS (filter (\<lambda>c. c \<noteq> CHR 0x22) ?bytes)"
    by (simp add: is_YYYYMMDDHHMMSS_def stamp_field_def digits_val_def digit_val_def byte_def
          is_digit_byte_def days_of_month_def gregorian_leap_def)
  show ?thesis
    using h UnmarshalJSON_strips_every_quote[OF h, of "\<lparr>Time = zero_Time\<rparr>"]
    by (simp add: stamp_time_def stamp_field_def digits_val_def digit_val_def byte_def Date_def)
qed

text \<open>
  C4, as stated, fails: \<open>time.Parse\<close> accepts a fractional second after the seconds even
  though the layout has none, so an input of the wrong length that holds a non-digit
  decodes without error.
\<close>

theorem UnmarshalJSON_fraction_counterexample:
  "length ''20240115093000.5'' \<noteq> 14 \<and> \<not> list_all is_digit_byte ''20240115093000.5'' \<and>
   UnmarshalJSON \<lparr>Time = zero_Time\<rparr> (CHR 0x22 # ''20240115093000.5'' @ [CHR 0x22]) =
     (\<lparr>Time = Date 2024 1 15 9 30 0 500000000\<rparr>, None)"
  by (simp add: time_eval)

text \<open>
  C4, amended. The input \<open>"20240115093000"\<close> decodes to 2024-01-15 09:30:00 UTC, and
  decoding fails with a \<open>time.ParseError\<close>, leaving the receiver as it was, for every
  input that, once all double quotes are deleted, is not a valid fourteen-digit
  \<open>YYYYMMDDHHMMSS\<close> stamp alone or followed by a fractional second (a period or comma
  and one or more digits).
\<close>

theorem UnmarshalJSON_layout:
  "UnmarshalJSON p (CHR 0x22 # ''20240115093000'' @ [CHR 0x22]) =
     (p\<lparr>Time := Date 2024 1 15 9 30 0 0\<rparr>, None) \<and>
   (\<not> accepted_stamp (filter (\<lambda>c. c \<noteq> CHR 0x22) bytes) \<longrightarrow>
      (\<exists>msg. UnmarshalJSON p bytes = (p, Some (ParseError msg))))"
proof
  show "UnmarshalJSON p (CHR 0x22 # ''20240115093000'' @ [CHR 0x22]) =
          (p\<lparr>Time := Date 2024 1 15 9 30 0 0\<rparr>, None)"
  proof -
    have "time_Parse layout ''20240115093000'' = Inr (Date 2024 1 15 9 30 0 0)"
      by (simp add: time_eval)
    then show ?thesis
      by (simp add: UnmarshalJSON_def ReplaceAll_byte_def dquote_def)
  qed
next
  let ?s = "filter (\<lambda>c. c \<noteq> CHR 0x22) bytes"
  show "\<not> accepted_stamp ?s \<longrightarrow> (\<exists>msg. UnmarshalJSON p bytes = (p, Some (ParseError msg)))"
  proof
    assume n: "\<not> accepted_stamp ?s"
    show "\<exists>msg. UnmarshalJSON p bytes = (p, Some (ParseError msg))"
    proof (cases "time_Parse layout ?s")
      case (Inl e)
      from time_Parse_error[OF Inl] obtain msg where "e = ParseError msg" ..
      with Inl show ?thesis
        by (simp add: UnmarshalJSON_def ReplaceAll_byte_def dquote_def)
    next
      case (Inr t)
      with n show ?thesis
        using time_Parse_Inr[of ?s t] by simp
    qed
  qed
qed

theorem UnmarshalJSON_layout_witness:
  "\<not> accepted_stamp (filter (\<lambda>c. c \<noteq> CHR 0x22) (CHR 0x22 # ''2024-01-15'' @ [CHR 0x22])) \<and>
   (\<exists>msg. UnmarshalJSON \<lparr>Time = zero_Time\<rparr> (CHR 0x22 # ''2024-01-15'' @ [CHR 0x22]) =
      (\<lparr>Time = zero_Time\<rparr>, Some (ParseError msg)))"
proof -
  have h: "\<not> accepted_stamp (filter (\<lambda>c. c \<noteq> CHR 0x22) (CHR 0x22 # ''2024-01-15'' @ [CHR 0x22]))"
    by (simp add: accepted_stamp_def is_YYYYMMDDHHMMSS_def)
  show ?thesis
    using h UnmarshalJSON_layout[of "\<lparr>Time = zero_Time\<rparr>" "CHR 0x22 # ''2024-01-15'' @ [CHR 0x22]"]
    by blast
qed

text \<open>
  C7, as stated, fails for the same reason: an input with a fractional second decodes,
  and formatting the decoded time in the layout gives fourteen digits, which is neither
  the raw token nor the string between its quotes.
\<close>

theorem Format_roundtrip_counterexample:
  "UnmarshalJSON \<lparr>Time = zero_Time\<rparr> (CHR 0x22 # ''19991231235959.25'' @ [CHR 0x22]) =
     (\<lparr>Time = Date 1999 12 31 23 59 59 250000000\<rparr>, None) \<and>
   Format (Date 1999 12 31 23 59 59 250000000) layout = ''19991231235959'' \<and>
   ''19991231235959'' \<noteq> ''19991231235959.25'' \<and>
   ''19991231235959'' \<noteq> CHR 0x22 # ''19991231235959.25'' @ [CHR 0x22]"
proof -
  have "UnmarshalJSON \<lparr>Time = zero_Time\<rparr> (CHR 0x22 # ''19991231235959.25'' @ [CHR 0x22]) =
          (\<lparr>Time = Date 1999 12 31 23 59 59 250000000\<rparr>, None)"
    by (simp add: time_eval)
  moreover have "Format (Date 1999 12 31 23 59 59 250000000) layout = ''19991231235959''"
    by (simp add: format_eval)
  ultimately show ?thesis by simp
qed

text \<open>
  C7, amended. For every input that decodes successfully, formatting the decoded time
  in the \<open>YYYYMMDDHHMMSS\<close> layout reproduces the first fourteen bytes of the input with
  its double quotes deleted; that is the whole quote-free input unless a fractional
  second follows the seconds.
\<close>

theorem Format_roundtrip:
  assumes "UnmarshalJSON p bytes = (p', None)"
  shows "Format (Time p') layout = take 14 (filter (\<lambda>c. c \<noteq> CHR 0x22) bytes)"
proof -
  let ?s = "filter (\<lambda>c. c \<noteq> CHR 0x22) bytes"
  from assms obtain t where t: "time_Parse layout ?s = Inr t" and p': "p' = p\<lparr>Time := t\<rparr>"
    by (auto simp: UnmarshalJSON_def ReplaceAll_byte_def dquote_def split: sum.splits)
  from time_Parse_Inr[OF t] obtain ns where
      "is_YYYYMMDDHHMMSS (take 14 ?s)" "t = (stamp_time (take 14 ?s))\<lparr>Nanosecond := ns\<rparr>"
    by (auto simp: accepted_stamp_def)
  then show ?thesis
    using Format_stamp[of "take 14 ?s" ns] by (simp add: p')
qed

theorem Format_roundtrip_witness:
  "UnmarshalJSON \<lparr>Time = zero_Time\<rparr> (CHR 0x22 # ''20000229120000'' @ [CHR 0x22]) =
     (\<lparr>Time = Date 2000 2 29 12 0 0 0\<rparr>, None) \<and>
   Format (Date 2000 2 29 12 0 0 0) layout = ''20000229120000''"
proof -
  have h: "UnmarshalJSON \<lparr>Time = zero_Time\<rparr> (CHR 0x22 # ''20000229120000'' @ [CHR 0x22]) =
     (\<lparr>Time = Date 2000 2 29 12 0 0 0\<rparr>, None)"
    by (simp add: time_eval)
  show ?thesis
    using h Format_roundtrip[OF h] by simp
qed

section \<open>Facts about the client\<close>

text \<open>The equations that evaluate the URL functions and the client on a literal input.\<close>

lemmas url_eval =
  Parse_def parse_def Cut_def stringContainsCTLByte_def getScheme_def ToLower_def
  HasPrefix_def HasSuffix_def Count_byte_def parseAuthority_def parseHost_def
  LastIndex_byte_def validOptionalPort_def validUserinfo_def unescape_def escape_def
  shouldEscape_def setPath_def setFragment_def zero_URL_def
  String_def EscapedPath_def EscapedFragment_def validEncoded_def Userinfo_String_def
  is_lower_byte_def is_upper_byte_def is_digit_byte_def byte_def ishex_def unhex_def upperhex_def
  Let_def

lemmas client_eval =
  GetApiURL_def fetch_def http_NewRequest_def removeEmptyPort_def Header_Add_def Header_Get_def
  Decode_def unmarshal_RevisionHashes_def unmarshal_RevisionHash_def
  endpoint_get_hash_chain_info_def endpoint_get_revision_hashes_def endpoint_get_revision_def
  endpoint_get_server_info_def sample_env_def sample_Do_def sample_json_Decode_def

lemma fetch_request:
  assumes "fetch env a u = (r, sent)" "req \<in> set sent"
  shows "sent = [req] \<and>
         (\<exists>u'. url_Parse env (url_String env u) = Inr u' \<and>
            req = \<lparr>Method = ''GET'', URL = u'\<lparr>Host := removeEmptyPort (Host u')\<rparr>,
                   Header = [(''Content-Type'', [''application/json'']),
                             (''Authorization'', [''Bearer'' @ authToken a])]\<rparr>)"
  using assms
  by (auto simp: fetch_def http_NewRequest_def Header_Add_def Let_def split: sum.splits if_splits)

lemma fetch_result:
  assumes "fetch env a u = (r, sent)" "req \<in> set sent" "client_Do env req = Inr resp"
  shows "r = (Some resp, if StatusCode resp \<noteq> 200 then Some (ErrorString ''Request Not 200 OK'') else None)"
proof -
  from fetch_request[OF assms(1,2)] have s: "sent = [req]" by simp
  from assms(1) s assms(3) show ?thesis
    by (auto simp: fetch_def Let_def split: sum.splits if_splits)
qed

lemma fetch_not_200:
  assumes "fetch env a u = (r, sent)" "req \<in> set sent" "client_Do env req = Inr resp"
      "StatusCode resp \<noteq> 200"
  shows "r = (Some resp, Some (ErrorString ''Request Not 200 OK''))"
  using fetch_result[OF assms(1-3)] assms(4) by simp

lemma sample_GetRevision:
  "GetRevision sample_env sample_api ''abc'' =
     (Return None (Some (ErrorString ''Request Not 200 OK'')),
      [sample_request ''/data_accounting/get_revision/abc''])"
  by (simp add: GetRevision_def client_eval url_eval sample_api_def sample_request_def)

lemma sample_GetRevisionHashes:
  "GetRevisionHashes sample_env sample_api ''abc/def'' =
     (Return (Some []) None, [sample_request ''/data_accounting/get_revision_hashes/abc/def''])"
  by (simp add: GetRevisionHashes_def client_eval url_eval sample_api_def sample_request_def)

lemma sample_GetServerInfo:
  "GetServerInfo sample_env sample_api =
     (Return None (Some (ErrorString ''Request Not 200 OK'')),
      [sample_request ''/data_accounting/get_server_info''])"
  by (simp add: GetServerInfo_def client_eval url_eval sample_api_def sample_request_def)

lemma sample_Do_404:
  "client_Do sample_env (sample_request ''/data_accounting/get_revision/abc'') =
     Inr \<lparr>StatusCode = 404, Body = ''404 page not found''\<rparr>"
  by (simp add: sample_env_def sample_Do_def sample_request_def zero_URL_def HasPrefix_def)

text \<open>Every request that leaves the client was built by \<open>fetch\<close>.\<close>

lemma requests_come_from_fetch:
  assumes "req \<in> set (snd (GetHashChainInfo env a id_type id')) \<or>
           req \<in> set (snd (GetRevisionHashes env a h)) \<or>
           req \<in> set (snd (GetRevision env a h)) \<or>
           req \<in> set (snd (GetServerInfo env a))"
  shows "\<exists>u. req \<in> set (snd (fetch env a u))"
proof -
  have one: "\<exists>u. req \<in> set (snd (fetch env a u))"
    if "req \<in> set (snd (case g of Inl err \<Rightarrow> (Return None (Some err), [])
          | Inr u \<Rightarrow> (case fetch env a u of
               ((_, Some err), sent) \<Rightarrow> (Return None (Some err), sent)
             | ((None, None), sent) \<Rightarrow> (Panic ''nil pointer dereference'', sent)
             | ((Some resp, None), sent) \<Rightarrow>
                 (case d resp of
                    Inl err \<Rightarrow> (Return None (Some err), sent)
                  | Inr r \<Rightarrow> (k r, sent)))))"
    for g :: "error + URL" and d :: "Response \<Rightarrow> error + 'b" and k :: "'b \<Rightarrow> 'c outcome"
  proof (cases g)
    case (Inl e)
    with that show ?thesis by simp
  next
    case (Inr u)
    obtain r s where f: "fetch env a u = (r, s)" by (cases "fetch env a u")
    with that Inr have "req \<in> set s"
      by (auto split: prod.splits option.splits sum.splits)
    with f show ?thesis by (intro exI[of _ u]) simp
  qed
  from assms show ?thesis
    unfolding GetHashChainInfo_def GetRevisionHashes_def GetRevision_def GetServerInfo_def
    by (auto split: if_splits dest: one)
qed

text \<open>
  Whatever the environment, the \<open>Authorization\<close> value of a request is \<open>Bearer\<close> directly
  followed by the token.
\<close>

lemma every_request_header:
  assumes "req \<in> set (snd (fetch env a u)) \<or>
           req \<in> set (snd (GetHashChainInfo env a id_type id')) \<or>
           req \<in> set (snd (GetRevisionHashes env a h)) \<or>
           req \<in> set (snd (GetRevision env a h)) \<or>
           req \<in> set (snd (GetServerInfo env a))"
  shows "Header_Get (Header req) ''Authorization'' = ''Bearer'' @ authToken a"
proof -
  from assms requests_come_from_fetch[of req env a id_type id' h]
  obtain v where "req \<in> set (snd (fetch env a v))" by blast
  then show ?thesis
    using fetch_request[of env a v "fst (fetch env a v)" "snd (fetch env a v)" req]
    by (auto simp: Header_Get_def)
qed

text \<open>Whatever the environment, any other \<open>id_type\<close> ends in the panic, with no request.\<close>

lemma panic_on_other_id_type:
  assumes "id_type \<noteq> ''genesis_hash''" "id_type \<noteq> ''title''"
  shows "GetHashChainInfo env a id_type id' = (Panic ''wtf'', [])"
  using assms by (simp add: GetHashChainInfo_def)

text \<open>\<open>url.Parse\<close> on a scheme, an authority and a path of plain bytes without \<open>%\<close>.\<close>

lemma Cut_absent: "c \<notin> set s \<Longrightarrow> Cut s c = (s, [])"
proof -
  assume "c \<notin> set s"
  then have "takeWhile (\<lambda>x. x \<noteq> c) s = s" "dropWhile (\<lambda>x. x \<noteq> c) s = []"
    by (auto simp: takeWhile_eq_all_conv dropWhile_eq_Nil_conv)
  then show ?thesis by (simp only: Cut_def drop.simps)
qed

lemma scheme_byte_plain: "scheme_byte c \<Longrightarrow> plain_byte c \<and> c \<noteq> CHR '':'' \<and> c \<noteq> CHR ''*''"
  by (auto simp: scheme_byte_def plain_byte_def is_lower_byte_def is_upper_byte_def
        is_digit_byte_def byte_def)

lemma getScheme_from_scheme:
  "list_all scheme_byte cs \<Longrightarrow> pre \<noteq> [] \<Longrightarrow>
   getScheme_from pre (cs @ CHR '':'' # rest) raw = Inr (pre @ cs, rest)"
proof (induction cs arbitrary: pre)
  case Nil
  then show ?case
    by (simp add: is_lower_byte_def is_upper_byte_def is_digit_byte_def byte_def)
next
  case (Cons c cs)
  from Cons.prems have c: "scheme_byte c" and cs: "list_all scheme_byte cs" by simp_all
  have ih: "getScheme_from (pre @ [c]) (cs @ CHR '':'' # rest) raw = Inr ((pre @ [c]) @ cs, rest)"
    using Cons.IH[OF cs, of "pre @ [c]"] by simp
  from c scheme_byte_plain[OF c] Cons.prems(2) ih show ?case
    by (auto simp: scheme_byte_def)
qed

lemma getScheme_scheme:
  assumes "is_scheme scheme"
  shows "getScheme (scheme @ CHR '':'' # rest) = Inr (scheme, rest)"
proof -
  from assms obtain c cs where s: "scheme = c # cs" and c: "is_lower_byte c \<or> is_upper_byte c"
      and cs: "list_all scheme_byte cs"
    by (cases scheme) (auto simp: is_scheme_def)
  from getScheme_from_scheme[OF cs, of "[c]" rest "scheme @ CHR '':'' # rest"] c
  show ?thesis by (auto simp: getScheme_def s)
qed

lemma unescape_check_plain: "CHR ''%'' \<notin> set s \<Longrightarrow> unescape_check s encodePath = None"
  by (induction s encodePath rule: unescape_check.induct) auto

lemma unescape_bytes_plain: "CHR ''%'' \<notin> set s \<Longrightarrow> unescape_bytes s encodePath = s"
  by (induction s encodePath rule: unescape_bytes.induct) auto

lemma unescape_plain: "CHR ''%'' \<notin> set s \<Longrightarrow> unescape s encodePath = Inr s"
  by (simp add: unescape_def unescape_check_plain unescape_bytes_plain)

lemma plain_no_ctl: "list_all plain_byte s \<Longrightarrow> \<not> stringContainsCTLByte s"
  unfolding stringContainsCTLByte_def plain_byte_def list_all_iff list_ex_iff
  by (metis not_le)

lemma plain_no_mark: "list_all plain_byte s \<Longrightarrow> CHR ''?'' \<notin> set s \<and> CHR ''#'' \<notin> set s"
  unfolding plain_byte_def list_all_iff by blast

lemma HasSuffix_mem: "HasSuffix s [c] \<Longrightarrow> c \<in> set s"
proof -
  assume h: "HasSuffix s [c]"
  then have "drop (length s - 1) s = [c]" by (simp add: HasSuffix_def)
  then have "c \<in> set (drop (length s - 1) s)" by simp
  then show ?thesis by (rule in_set_dropD)
qed

lemma Parse_plain:
  assumes sch: "is_scheme scheme"
      and au: "CHR ''/'' \<notin> set authority" "parseAuthority authority = Inr (user, host)"
      and tl: "tail = CHR ''/'' # t"
      and pl: "list_all plain_byte (authority @ tail)"
      and pc: "CHR ''%'' \<notin> set tail"
  shows "\<exists>rp. Parse (scheme @ ''://'' @ authority @ tail) =
           Inr (zero_URL\<lparr>Scheme := ToLower scheme, User := user, Host := host, Path := tail,
                         RawPath := rp\<rparr>)"
proof -
  let ?rest = "''//'' @ authority @ tail"
  let ?raw = "scheme @ CHR '':'' # ?rest"
  from sch obtain c cs where s: "scheme = c # cs" and cs: "list_all scheme_byte (c # cs)"
    by (cases scheme) (auto simp: is_scheme_def scheme_byte_def)
  from cs have ps: "list_all plain_byte scheme"
    using scheme_byte_plain by (auto simp: s list_all_iff)
  have pr: "list_all plain_byte ?rest"
    using pl by (simp add: plain_byte_def byte_def)
  have praw: "list_all plain_byte ?raw"
    using ps pr by (simp add: plain_byte_def byte_def)
  have nofrag: "Cut ?raw (CHR ''#'') = (?raw, [])"
    using plain_no_mark[OF praw] by (intro Cut_absent) blast
  have noctl: "\<not> stringContainsCTLByte ?raw"
    using praw by (rule plain_no_ctl)
  have nostar: "?raw \<noteq> ''*''" by (simp add: s)
  have gs: "getScheme ?raw = Inr (scheme, ?rest)"
    using sch by (rule getScheme_scheme)
  have noq: "CHR ''?'' \<notin> set ?rest"
    using plain_no_mark[OF pr] by blast
  then have nosuf: "\<not> HasSuffix ?rest ''?''"
    using HasSuffix_mem by blast
  have cutq: "Cut ?rest (CHR ''?'') = (?rest, [])"
    using noq by (rule Cut_absent)
  have low: "ToLower scheme \<noteq> []" by (simp add: ToLower_def s)
  have tw: "takeWhile (\<lambda>c. c \<noteq> CHR ''/'') (authority @ tail) = authority"
           "dropWhile (\<lambda>c. c \<noteq> CHR ''/'') (authority @ tail) = tail"
    using au(1) by (auto simp: tl takeWhile_tail dropWhile_append3)
  define rp where "rp = (if tail = escape tail encodePath then [] else tail)"
  have sp: "setPath u tail = Inr (u\<lparr>Path := tail, RawPath := rp\<rparr>)" for u
    unfolding setPath_def rp_def by (simp only: unescape_plain[OF pc] sum.case)
  have p: "parse ?raw =
       Inr (zero_URL\<lparr>Scheme := ToLower scheme, User := user, Host := host, Path := tail,
                         RawPath := rp\<rparr>)"
    unfolding parse_def
    apply (simp only: noctl nostar gs cutq nosuf Let_def if_False sum.case prod.case fst_conv snd_conv)
    apply (simp only: HasPrefix_def)
    apply (simp add: low)
    apply (simp add: tw au(2))
    apply (simp add: sp zero_URL_def)
    done
  have "Parse ?raw =
       Inr (zero_URL\<lparr>Scheme := ToLower scheme, User := user, Host := host, Path := tail,
                         RawPath := rp\<rparr>)"
    using nofrag p by (simp add: Parse_def)
  then show ?thesis by auto
qed

section \<open>Claims about the client\<close>

text \<open>
  C1. For an \<open>id_type\<close> other than \<open>genesis_hash\<close> and \<open>title\<close> the specification wants an
  error returned to the caller before any network access. The code reaches no network,
  but it panics: at the input \<open>id_type = "verification_hash"\<close> the call ends in
  \<open>panic("wtf")\<close> and the \<open>return\<close> of the error behind it is never executed.
\<close>

theorem GetHashChainInfo_bad_id_type_panics:
  "GetHashChainInfo sample_env sample_api ''verification_hash'' ''Main_Page'' = (Panic ''wtf'', [])"
  using panic_on_other_id_type[of "''verification_hash''" sample_env sample_api "''Main_Page''"]
  by simp

text \<open>
  C2. The specification wants the header value \<open>Bearer\<close>, one space, then the token. The
  code concatenates \<open>"Bearer"\<close> and the token with nothing between them: with the token
  \<open>abc\<close> the request of \<open>GetServerInfo\<close> carries \<open>Bearerabc\<close>.
\<close>

theorem Authorization_header_has_no_space:
  "map (\<lambda>req. Header_Get (Header req) ''Authorization'') (snd (GetServerInfo sample_env sample_api))
     = [''Bearerabc''] \<and>
   ''Bearerabc'' \<noteq> ''Bearer'' @ '' '' @ authToken sample_api"
proof -
  have "\<forall>req \<in> set (snd (GetServerInfo sample_env sample_api)).
          Header_Get (Header req) ''Authorization'' = ''Bearer'' @ authToken sample_api"
    using every_request_header by blast
  then show ?thesis
    unfolding sample_GetServerInfo by (simp add: sample_api_def)
qed

text \<open>
  C3. If the response to the request of a call has a status other than 200, then
  \<open>fetch\<close> returns that response together with the error \<open>Request Not 200 OK\<close>, and each
  of the four operations returns \<open>nil\<close> and that error, whatever the body holds.
  Here \<open>sent\<close> is the list of requests the call issued.
\<close>

theorem non_200_is_an_error:
  assumes "req \<in> set sent" "client_Do env req = Inr resp" "StatusCode resp \<noteq> 200"
  shows "(fetch env a u = (r, sent) \<longrightarrow>
            r = (Some resp, Some (ErrorString ''Request Not 200 OK''))) \<and>
         (GetHashChainInfo env a id_type id' = (o1, sent) \<longrightarrow>
            o1 = Return None (Some (ErrorString ''Request Not 200 OK''))) \<and>
         (GetRevisionHashes env a h = (o2, sent) \<longrightarrow>
            o2 = Return None (Some (ErrorString ''Request Not 200 OK''))) \<and>
         (GetRevision env a h = (o3, sent) \<longrightarrow>
            o3 = Return None (Some (ErrorString ''Request Not 200 OK''))) \<and>
         (GetServerInfo env a = (o4, sent) \<longrightarrow>
            o4 = Return None (Some (ErrorString ''Request Not 200 OK'')))"
proof (intro conjI impI)
  assume "fetch env a u = (r, sent)"
  then show "r = (Some resp, Some (ErrorString ''Request Not 200 OK''))"
    using assms by (rule fetch_not_200)
next
  assume g: "GetHashChainInfo env a id_type id' = (o1, sent)"
  show "o1 = Return None (Some (ErrorString ''Request Not 200 OK''))"
  proof (cases "id_type \<noteq> ''genesis_hash'' \<and> id_type \<noteq> ''title''")
    case True
    with g assms(1) show ?thesis by (simp add: GetHashChainInfo_def)
  next
    case False
    show ?thesis
    proof (cases "GetApiURL env a (endpoint_get_hash_chain_info @ id_type @ ''/'' @ id')")
      case (Inl e)
      with g False assms(1) show ?thesis by (auto simp: GetHashChainInfo_def)
    next
      case (Inr v)
      obtain r' s' where f: "fetch env a v = (r', s')" by (cases "fetch env a v")
      with g False Inr have "s' = sent"
        by (simp add: GetHashChainInfo_def split: prod.splits option.splits sum.splits)
      with f assms have "r' = (Some resp, Some (ErrorString ''Request Not 200 OK''))"
        using fetch_not_200 by blast
      with g False Inr f show ?thesis
        by (simp add: GetHashChainInfo_def)
    qed
  qed
next
  assume g: "GetRevisionHashes env a h = (o2, sent)"
  show "o2 = Return None (Some (ErrorString ''Request Not 200 OK''))"
  proof (cases "GetApiURL env a (endpoint_get_revision_hashes @ h)")
    case (Inl e)
    with g assms(1) show ?thesis by (auto simp: GetRevisionHashes_def)
  next
    case (Inr v)
    obtain r' s' where f: "fetch env a v = (r', s')" by (cases "fetch env a v")
    with g Inr have "s' = sent"
      by (auto simp: GetRevisionHashes_def split: prod.splits option.splits sum.splits)
    with f assms have "r' = (Some resp, Some (ErrorString ''Request Not 200 OK''))"
      using fetch_not_200 by blast
    with g Inr f show ?thesis
      by (auto simp: GetRevisionHashes_def)
  qed
next
  assume g: "GetRevision env a h = (o3, sent)"
  show "o3 = Return None (Some (ErrorString ''Request Not 200 OK''))"
  proof (cases "GetApiURL env a (endpoint_get_revision @ h)")
    case (Inl e)
    with g assms(1) show ?thesis by (auto simp: GetRevision_def)
  next
    case (Inr v)
    obtain r' s' where f: "fetch env a v = (r', s')" by (cases "fetch env a v")
    with g Inr have "s' = sent"
      by (auto simp: GetRevision_def split: prod.splits option.splits sum.splits)
    with f assms have "r' = (Some resp, Some (ErrorString ''Request Not 200 OK''))"
      using fetch_not_200 by blast
    with g Inr f show ?thesis
      by (auto simp: GetRevision_def)
  qed
next
  assume g: "GetServerInfo env a = (o4, sent)"
  show "o4 = Return None (Some (ErrorString ''Request Not 200 OK''))"
  proof (cases "GetApiURL env a endpoint_get_server_info")
    case (Inl e)
    with g assms(1) show ?thesis by (auto simp: GetServerInfo_def)
  next
    case (Inr v)
    obtain r' s' where f: "fetch env a v = (r', s')" by (cases "fetch env a v")
    with g Inr have "s' = sent"
      by (auto simp: GetServerInfo_def split: prod.splits option.splits sum.splits)
    with f assms have "r' = (Some resp, Some (ErrorString ''Request Not 200 OK''))"
      using fetch_not_200 by blast
    with g Inr f show ?thesis
      by (auto simp: GetServerInfo_def)
  qed
qed

theorem non_200_is_an_error_witness:
  "sample_request ''/data_accounting/get_revision/abc''
      \<in> set [sample_request ''/data_accounting/get_revision/abc''] \<and>
   client_Do sample_env (sample_request ''/data_accounting/get_revision/abc'') =
      Inr \<lparr>StatusCode = 404, Body = ''404 page not found''\<rparr> \<and>
   StatusCode \<lparr>StatusCode = 404, Body = ''404 page not found''\<rparr> \<noteq> 200 \<and>
   GetRevision sample_env sample_api ''abc'' =
     (Return None (Some (ErrorString ''Request Not 200 OK'')),
      [sample_request ''/data_accounting/get_revision/abc''])"
proof -
  let ?req = "sample_request ''/data_accounting/get_revision/abc''"
  let ?resp = "\<lparr>StatusCode = 404, Body = ''404 page not found''\<rparr>"
  have m: "?req \<in> set [?req]" by simp
  have d: "client_Do sample_env ?req = Inr ?resp" by (rule sample_Do_404)
  have s: "StatusCode ?resp \<noteq> 200" by simp
  have g: "GetRevision sample_env sample_api ''abc'' =
             (fst (GetRevision sample_env sample_api ''abc''), [?req])"
    by (simp add: sample_GetRevision)
  from non_200_is_an_error[OF m d s, of sample_api _ _ _ _ _ "''abc''" _
        "fst (GetRevision sample_env sample_api ''abc'')"] g
  have "fst (GetRevision sample_env sample_api ''abc'') =
          Return None (Some (ErrorString ''Request Not 200 OK''))"
    by blast
  with g m d s show ?thesis by simp
qed

text \<open>
  C9. When the response to the request of \<open>GetRevisionHashes\<close> has status 200 and its body
  reads as the JSON array without elements, the call returns an empty, non-nil slice
  and no error.
\<close>

theorem empty_array_gives_empty_sequence:
  assumes "GetRevisionHashes env a h = (out, sent)" "req \<in> set sent"
      and "client_Do env req = Inr resp" "StatusCode resp = 200"
      and "json_Decode env (Body resp) = Inr (JArray [])"
  shows "out = Return (Some []) None"
proof (cases "GetApiURL env a (endpoint_get_revision_hashes @ h)")
  case (Inl e)
  with assms(1,2) show ?thesis by (auto simp: GetRevisionHashes_def)
next
  case (Inr v)
  obtain r' s' where f: "fetch env a v = (r', s')" by (cases "fetch env a v")
  with assms(1) Inr have "s' = sent"
    by (auto simp: GetRevisionHashes_def split: prod.splits option.splits sum.splits)
  with f assms(2-4) have "r' = (Some resp, None)"
    using fetch_result by fastforce
  with assms(1,5) Inr f show ?thesis
    by (simp add: GetRevisionHashes_def Decode_def unmarshal_RevisionHashes_def)
qed

theorem empty_array_gives_empty_sequence_witness:
  "GetRevisionHashes sample_env sample_api ''abc/def'' =
     (Return (Some []) None, [sample_request ''/data_accounting/get_revision_hashes/abc/def'']) \<and>
   client_Do sample_env (sample_request ''/data_accounting/get_revision_hashes/abc/def'') =
     Inr \<lparr>StatusCode = 200, Body = ''[]''\<rparr> \<and>
   json_Decode sample_env ''[]'' = Inr (JArray [])"
proof -
  let ?req = "sample_request ''/data_accounting/get_revision_hashes/abc/def''"
  let ?resp = "\<lparr>StatusCode = 200, Body = ''[]''\<rparr>"
  have g: "GetRevisionHashes sample_env sample_api ''abc/def'' =
             (fst (GetRevisionHashes sample_env sample_api ''abc/def''), [?req])"
    by (simp add: sample_GetRevisionHashes)
  have m: "?req \<in> set [?req]" by simp
  have d: "client_Do sample_env ?req = Inr ?resp"
    by (simp add: sample_env_def sample_Do_def sample_request_def zero_URL_def HasPrefix_def)
  have s: "StatusCode ?resp = 200" by simp
  have j: "json_Decode sample_env (Body ?resp) = Inr (JArray [])"
    by (simp add: sample_env_def sample_json_Decode_def)
  from empty_array_gives_empty_sequence[OF g m d s j] g d j show ?thesis by simp
qed

text \<open>
  C8. \<open>NewAPI\<close> returns the error of \<open>url.Parse\<close> and no client when the endpoint does not
  parse; otherwise it returns a client that stores the endpoint and the token as given,
  and no error.
\<close>

theorem NewAPI_checks_endpoint:
  "(\<forall>e. url_Parse env endpoint = Inl e \<longrightarrow> NewAPI env endpoint token = (None, Some e)) \<and>
   (\<forall>u. url_Parse env endpoint = Inr u \<longrightarrow>
      (\<exists>a. NewAPI env endpoint token = (Some a, None) \<and>
           apiEndpoint a = endpoint \<and> authToken a = token))"
  by (simp add: NewAPI_def)

theorem NewAPI_checks_endpoint_witness:
  "url_Parse sample_env ''http://local host'' = Inl (UrlError ''invalid character in host name  '') \<and>
   NewAPI sample_env ''http://local host'' ''abc'' =
     (None, Some (UrlError ''invalid character in host name  '')) \<and>
   url_Parse sample_env ''http://localhost:8080'' =
     Inr (zero_URL\<lparr>Scheme := ''http'', Host := ''localhost:8080''\<rparr>) \<and>
   (\<exists>a. NewAPI sample_env ''http://localhost:8080'' ''abc'' = (Some a, None) \<and>
        apiEndpoint a = ''http://localhost:8080'' \<and> authToken a = ''abc'')"
proof -
  have bad: "url_Parse sample_env ''http://local host'' = Inl (UrlError ''invalid character in host name  '')"
    by (simp add: sample_env_def url_eval)
  have good: "url_Parse sample_env ''http://localhost:8080'' =
      Inr (zero_URL\<lparr>Scheme := ''http'', Host := ''localhost:8080''\<rparr>)"
    by (simp add: sample_env_def url_eval)
  from NewAPI_checks_endpoint[of sample_env "''http://local host''" "''abc''"] bad
  have 1: "NewAPI sample_env ''http://local host'' ''abc'' =
     (None, Some (UrlError ''invalid character in host name  ''))"
    by blast
  from NewAPI_checks_endpoint[of sample_env "''http://localhost:8080''" "''abc''"] good
  have 2: "\<exists>a. NewAPI sample_env ''http://localhost:8080'' ''abc'' = (Some a, None) \<and>
        apiEndpoint a = ''http://localhost:8080'' \<and> authToken a = ''abc''"
    by blast
  from bad good 1 2 show ?thesis by blast
qed

text \<open>
  Whatever the environment, for \<open>id_type\<close> \<open>genesis_hash\<close> or \<open>title\<close> the string handed to
  \<open>url.Parse\<close> is the base endpoint followed by \<open>/data_accounting/get_hash_chain_info/\<close>,
  the \<open>id_type\<close>, a slash and the \<open>id\<close>; the call issues no request when that does not
  parse, and otherwise its one request is the \<open>GET\<close> that \<open>http.NewRequest\<close> builds from
  the printed form of the parsed URL.
\<close>

lemma GetHashChainInfo_requests:
  assumes "id_type = ''genesis_hash'' \<or> id_type = ''title''"
  shows "snd (GetHashChainInfo env a id_type id') =
     (case url_Parse env (apiEndpoint a @ ''/data_accounting/get_hash_chain_info/'' @ id_type @ ''/'' @ id') of
        Inl e \<Rightarrow> []
      | Inr u \<Rightarrow>
          (case url_Parse env (url_String env u) of
             Inl e \<Rightarrow> []
           | Inr u' \<Rightarrow>
               [\<lparr>Method = ''GET'', URL = u'\<lparr>Host := removeEmptyPort (Host u')\<rparr>,
                 Header = [(''Content-Type'', [''application/json'']),
                           (''Authorization'', [''Bearer'' @ authToken a])]\<rparr>]))"
proof -
  from assms have v: "\<not> (id_type \<noteq> ''genesis_hash'' \<and> id_type \<noteq> ''title'')" by blast
  show ?thesis
    by (simp add: GetHashChainInfo_def v GetApiURL_def endpoint_get_hash_chain_info_def fetch_def
          http_NewRequest_def Header_Add_def Let_def
          split: sum.splits prod.splits option.splits)
qed

text \<open>
  C5, as stated, fails: the \<open>id\<close> is appended unescaped, so \<open>url.Parse\<close> reads a \<open>?\<close> in
  it as the start of the query and rejects a stray \<open>%\<close>. For the id \<open>a?b\<close> the request
  goes to the path that ends in \<open>/title/a\<close>, with the query \<open>b\<close>; for the id \<open>100%\<close> no
  URL is composed and no request is sent.
\<close>

theorem GetHashChainInfo_id_counterexample:
  "map (\<lambda>req. (Path (URL req), RawQuery (URL req)))
       (snd (GetHashChainInfo sample_env sample_api ''title'' ''a?b'')) =
     [(''/data_accounting/get_hash_chain_info/title/a'', ''b'')] \<and>
   ''/data_accounting/get_hash_chain_info/title/a'' \<noteq>
     ''/data_accounting/get_hash_chain_info/'' @ ''title'' @ ''/'' @ ''a?b'' \<and>
   isl (GetApiURL sample_env sample_api (endpoint_get_hash_chain_info @ ''title'' @ ''/'' @ ''100%'')) \<and>
   snd (GetHashChainInfo sample_env sample_api ''title'' ''100%'') = []"
  by (simp add: GetHashChainInfo_def client_eval url_eval sample_api_def)

text \<open>
  C5, amended. Let the base endpoint be a scheme, \<open>://\<close>, an authority that \<open>url.Parse\<close>
  accepts and an optional path that starts with a slash, and let authority, base path
  and \<open>id\<close> hold no \<open>?\<close>, no \<open>#\<close> and no control byte, base path and \<open>id\<close> no \<open>%\<close>. Then for
  \<open>id_type\<close> \<open>genesis_hash\<close> or \<open>title\<close> the URL that \<open>GetHashChainInfo\<close> composes has exactly
  the path made of the base path, \<open>/data_accounting/get_hash_chain_info/\<close>, the \<open>id_type\<close>,
  a slash and the \<open>id\<close>, with no query and no fragment, and the requests of the call are
  those of \<open>fetch\<close> on that URL.
\<close>

theorem GetHashChainInfo_composes_path:
  assumes lib: "url_Parse env = Parse"
      and ty: "id_type = ''genesis_hash'' \<or> id_type = ''title''"
      and base: "apiEndpoint a = scheme @ ''://'' @ authority @ bpath"
      and sch: "is_scheme scheme"
      and au: "CHR ''/'' \<notin> set authority" "parseAuthority authority = Inr (user, host)"
      and bp: "bpath = [] \<or> hd bpath = CHR ''/''"
      and pl: "list_all plain_byte (authority @ bpath @ id')"
      and pc: "CHR ''%'' \<notin> set (bpath @ id')"
  shows "case GetApiURL env a (endpoint_get_hash_chain_info @ id_type @ ''/'' @ id') of
           Inl e \<Rightarrow> False
         | Inr u \<Rightarrow>
             Path u = bpath @ ''/data_accounting/get_hash_chain_info/'' @ id_type @ ''/'' @ id' \<and>
             RawQuery u = [] \<and> Fragment u = [] \<and> Opaque u = [] \<and> Host u = host \<and>
             snd (GetHashChainInfo env a id_type id') = snd (fetch env a u)"
proof -
  let ?tail = "bpath @ ''/data_accounting/get_hash_chain_info/'' @ id_type @ ''/'' @ id'"
  from bp obtain t where tl: "?tail = CHR ''/'' # t"
    by (cases bpath) auto
  have plc: "list_all plain_byte (''/data_accounting/get_hash_chain_info/'' @ id_type @ ''/'')"
            "CHR ''%'' \<notin> set (''/data_accounting/get_hash_chain_info/'' @ id_type @ ''/'')"
    using ty by (auto simp: plain_byte_def byte_def)
  have pl': "list_all plain_byte (authority @ ?tail)"
    using pl plc(1) by simp
  have pc': "CHR ''%'' \<notin> set ?tail"
    using pc plc(2) by simp
  from Parse_plain[OF sch au tl pl' pc'] obtain rp where
    p: "Parse (scheme @ ''://'' @ authority @ ?tail) =
          Inr (zero_URL\<lparr>Scheme := ToLower scheme, User := user, Host := host, Path := ?tail,
                        RawPath := rp\<rparr>)"
    by blast
  let ?u = "zero_URL\<lparr>Scheme := ToLower scheme, User := user, Host := host, Path := ?tail,
                        RawPath := rp\<rparr>"
  have g: "GetApiURL env a (endpoint_get_hash_chain_info @ id_type @ ''/'' @ id') = Inr ?u"
    using p by (simp add: GetApiURL_def lib base endpoint_get_hash_chain_info_def)
  from ty have v: "\<not> (id_type \<noteq> ''genesis_hash'' \<and> id_type \<noteq> ''title'')" by blast
  have r: "snd (GetHashChainInfo env a id_type id') = snd (fetch env a ?u)"
    unfolding GetHashChainInfo_def g
    by (simp add: v split: prod.splits option.splits sum.splits)
  show ?thesis
    unfolding g using r by (simp add: zero_URL_def)
qed

theorem GetHashChainInfo_composes_path_witness:
  "url_Parse sample_env = Parse \<and>
   (''title'' = ''genesis_hash'' \<or> ''title'' = ''title'') \<and>
   apiEndpoint sample_api = ''http'' @ ''://'' @ ''localhost:8080'' @ [] \<and>
   is_scheme ''http'' \<and> CHR ''/'' \<notin> set ''localhost:8080'' \<and>
   parseAuthority ''localhost:8080'' = Inr (None, ''localhost:8080'') \<and>
   list_all plain_byte (''localhost:8080'' @ [] @ ''Main Page'') \<and>
   CHR ''%'' \<notin> set ([] @ ''Main Page'') \<and>
   (case GetApiURL sample_env sample_api (endpoint_get_hash_chain_info @ ''title'' @ ''/'' @ ''Main Page'') of
      Inl e \<Rightarrow> False
    | Inr u \<Rightarrow>
        Path u = ''/data_accounting/get_hash_chain_info/title/Main Page'' \<and>
        RawQuery u = [] \<and> Fragment u = [] \<and>
        snd (GetHashChainInfo sample_env sample_api ''title'' ''Main Page'') = snd (fetch sample_env sample_api u)) \<and>
   map (\<lambda>req. Path (URL req)) (snd (GetHashChainInfo sample_env sample_api ''title'' ''Main Page'')) =
     [''/data_accounting/get_hash_chain_info/title/Main Page'']"
proof -
  have lib: "url_Parse sample_env = Parse" by (simp add: sample_env_def)
  have ty: "''title'' = ''genesis_hash'' \<or> ''title'' = ''title''" by simp
  have base: "apiEndpoint sample_api = ''http'' @ ''://'' @ ''localhost:8080'' @ []"
    by (simp add: sample_api_def)
  have sch: "is_scheme ''http''"
    by (simp add: is_scheme_def scheme_byte_def is_lower_byte_def is_upper_byte_def byte_def)
  have au: "CHR ''/'' \<notin> set ''localhost:8080''"
           "parseAuthority ''localhost:8080'' = Inr (None, ''localhost:8080'')"
    by (simp_all add: url_eval)
  have bp: "([]::string) = [] \<or> hd [] = CHR ''/''" by simp
  have pl: "list_all plain_byte (''localhost:8080'' @ [] @ ''Main Page'')"
    by (simp add: plain_byte_def byte_def)
  have pc: "CHR ''%'' \<notin> set ([] @ ''Main Page'')" by simp
  have req: "map (\<lambda>req. Path (URL req)) (snd (GetHashChainInfo sample_env sample_api ''title'' ''Main Page'')) =
     [''/data_accounting/get_hash_chain_info/title/Main Page'']"
    by (simp add: GetHashChainInfo_def client_eval url_eval sample_api_def char_of_eq_iff)
  from GetHashChainInfo_composes_path[OF lib ty base sch au bp pl pc]
  have "case GetApiURL sample_env sample_api (endpoint_get_hash_chain_info @ ''title'' @ ''/'' @ ''Main Page'') of
      Inl e \<Rightarrow> False
    | Inr u \<Rightarrow>
        Path u = ''/data_accounting/get_hash_chain_info/title/Main Page'' \<and>
        RawQuery u = [] \<and> Fragment u = [] \<and>
        snd (GetHashChainInfo sample_env sample_api ''title'' ''Main Page'') = snd (fetch sample_env sample_api u)"
    by (auto split: sum.splits)
  with lib ty base sch au pl pc req show ?thesis by blast
qed

text \<open>
  C6, as stated, fails: nothing in the client looks for path segments in an argument.
  The argument \<open>abc/def\<close> is appended as it is, \<open>url.Parse\<close> accepts the longer path,
  and the request goes out to it; here the server answers and the call succeeds.
\<close>

theorem injected_segment_counterexample:
  "GetRevisionHashes sample_env sample_api ''abc/def'' =
     (Return (Some []) None, [sample_request ''/data_accounting/get_revision_hashes/abc/def'']) \<and>
   Path (URL (sample_request ''/data_accounting/get_revision_hashes/abc/def'')) =
     ''/data_accounting/get_revision_hashes/abc/def''"
  by (simp add: sample_GetRevisionHashes sample_request_def zero_URL_def)

text \<open>
  C6, amended. For every operation, if \<open>url.Parse\<close> rejects the composed string (the base
  endpoint followed by the endpoint path and the caller's argument), the operation
  returns that error and no value, and issues no request.
\<close>

theorem rejected_url_stops_operation:
  "(url_Parse env (apiEndpoint a @ ''/data_accounting/get_hash_chain_info/'' @ id_type @ ''/'' @ id') = Inl e \<and>
      (id_type = ''genesis_hash'' \<or> id_type = ''title'') \<longrightarrow>
      GetHashChainInfo env a id_type id' = (Return None (Some e), [])) \<and>
   (url_Parse env (apiEndpoint a @ ''/data_accounting/get_revision_hashes/'' @ h) = Inl e \<longrightarrow>
      GetRevisionHashes env a h = (Return None (Some e), [])) \<and>
   (url_Parse env (apiEndpoint a @ ''/data_accounting/get_revision/'' @ h) = Inl e \<longrightarrow>
      GetRevision env a h = (Return None (Some e), [])) \<and>
   (url_Parse env (apiEndpoint a @ ''/data_accounting/get_server_info'') = Inl e \<longrightarrow>
      GetServerInfo env a = (Return None (Some e), []))"
  by (auto simp: GetHashChainInfo_def GetRevisionHashes_def GetRevision_def GetServerInfo_def
        GetApiURL_def endpoint_get_hash_chain_info_def endpoint_get_revision_hashes_def
        endpoint_get_revision_def endpoint_get_server_info_def)

theorem rejected_url_stops_operation_witness:
  "url_Parse sample_env (''http://local host'' @ ''/data_accounting/get_revision/'' @ ''abc'') =
     Inl (UrlError ''invalid character in host name  '') \<and>
   GetRevision sample_env \<lparr>apiEndpoint = ''http://local host'', authToken = ''abc'', server = []\<rparr> ''abc'' =
     (Return None (Some (UrlError ''invalid character in host name  '')), [])"
proof -
  have bad: "url_Parse sample_env
               (apiEndpoint \<lparr>apiEndpoint = ''http://local host'', authToken = ''abc'', server = []\<rparr> @
                ''/data_accounting/get_revision/'' @ ''abc'') =
             Inl (UrlError ''invalid character in host name  '')"
    by (simp add: sample_env_def url_eval)
  from rejected_url_stops_operation[of sample_env
         "\<lparr>apiEndpoint = ''http://local host'', authToken = ''abc'', server = []\<rparr>" _ _
         "UrlError ''invalid character in host name  ''" "''abc''"] bad
  have "GetRevision sample_env \<lparr>apiEndpoint = ''http://local host'', authToken = ''abc'', server = []\<rparr> ''abc'' =
     (Return None (Some (UrlError ''invalid character in host name  '')), [])"
    by blast
  with bad show ?thesis by simp
qed

end
